theory Spec2Isabelle
  imports Main
begin

text \<open>
  A model of the session registry (\<^verbatim>\<open>contexts/SessionsContext.tsx\<close>) and of the bridge to
  the embedded JupyterLab (\<^verbatim>\<open>jupyter/Jupyter.tsx\<close>) of the Orchest web client, with the
  properties of both that the specification states. The definitions follow the source
  function by function; what the source does to its surroundings (requests, alerts,
  prompts, navigations of the frame) is recorded in the state that the functions pass on.
\<close>

section \<open>JavaScript values and objects\<close>

text \<open>
  The session registry of \<^verbatim>\<open>SessionsContext.tsx\<close> holds plain JavaScript objects whose
  fields are read and written through computed keys (\<^verbatim>\<open>data[key]\<close>), copied with the
  spread operator and compared with \<^verbatim>\<open>!==\<close>. An object is therefore a finite map from
  keys to values; a value is a string or \<^verbatim>\<open>undefined\<close>. A key that is absent and a
  key that holds \<^verbatim>\<open>undefined\<close> are different objects that read the same, as in
  JavaScript.
\<close>

datatype jsval = Undefined | Str string

type_synonym jsobj = "string \<rightharpoonup> jsval"

definition js_get :: "jsobj \<Rightarrow> string \<Rightarrow> jsval" where
  \<comment> \<open>obj[key]: reading an absent key gives undefined.\<close>
  "js_get obj key = (case obj key of None \<Rightarrow> Undefined | Some v \<Rightarrow> v)"

definition truthy :: "jsval \<Rightarrow> bool" where
  \<comment> \<open>undefined and the empty string are falsy.\<close>
  "truthy v = (case v of Undefined \<Rightarrow> False | Str s \<Rightarrow> s \<noteq> [])"

definition js_or :: "jsval \<Rightarrow> jsval \<Rightarrow> jsval" where
  \<comment> \<open>a || b\<close>
  "js_or a b = (if truthy a then a else b)"

definition to_string :: "jsval \<Rightarrow> string" where
  \<comment> \<open>The conversion a template literal applies to an interpolated value.\<close>
  "to_string v = (case v of Undefined \<Rightarrow> ''undefined'' | Str s \<Rightarrow> s)"

subsection \<open>Key conversion\<close>

text \<open>
  \<^verbatim>\<open>pascalcase\<close> comes from the npm package of that name: the maximal alphanumeric
  runs of the input, each with its first letter in upper case, joined. The registry only
  passes it the two snake-case keys \<^verbatim>\<open>project_uuid\<close> and \<^verbatim>\<open>pipeline_uuid\<close>.
\<close>

definition lower_letters :: string where
  "lower_letters = ''abcdefghijklmnopqrstuvwxyz''"

definition upper_letters :: string where
  "upper_letters = ''ABCDEFGHIJKLMNOPQRSTUVWXYZ''"

definition toUpperCase :: "char \<Rightarrow> char" where
  "toUpperCase c = (case map_of (zip lower_letters upper_letters) c of None \<Rightarrow> c | Some u \<Rightarrow> u)"

definition toLowerCase :: "char \<Rightarrow> char" where
  "toLowerCase c = (case map_of (zip upper_letters lower_letters) c of None \<Rightarrow> c | Some l \<Rightarrow> l)"

definition is_alnum :: "char \<Rightarrow> bool" where
  "is_alnum c = (c \<in> set (lower_letters @ upper_letters @ ''0123456789''))"

fun alnum_runs :: "string \<Rightarrow> string \<Rightarrow> string list" where
  \<comment> \<open>The matches of /[a-zA-Z0-9]+/g; the first argument is the run being read.\<close>
  "alnum_runs run [] = (if run = [] then [] else [run])"
| "alnum_runs run (c # cs) =
     (if is_alnum c then alnum_runs (run @ [c]) cs
      else if run = [] then alnum_runs [] cs
      else run # alnum_runs [] cs)"

definition titlecase :: "string \<Rightarrow> string" where
  "titlecase s = (case s of [] \<Rightarrow> [] | c # cs \<Rightarrow> toUpperCase c # cs)"

definition pascalcase :: "string \<Rightarrow> string" where
  "pascalcase input =
     (case alnum_runs [] input of [] \<Rightarrow> input | ms \<Rightarrow> concat (map titlecase ms))"

definition lowerCaseFirstLetter :: "string \<Rightarrow> string" where
  \<comment> \<open>str.charAt(0).toLowerCase() + str.slice(1)\<close>
  "lowerCaseFirstLetter str = (case str of [] \<Rightarrow> [] | c # cs \<Rightarrow> toLowerCase c # cs)"

definition convertKeyToCamelCase :: "jsobj option \<Rightarrow> string list \<Rightarrow> jsobj option" where
  \<comment> \<open>The branch with keys, the only one the registry calls: each listed key is
      copied, in place, to its camel-case name, whether or not the object has it.\<close>
  "convertKeyToCamelCase data keys =
     (case data of
        None \<Rightarrow> None
      | Some d \<Rightarrow>
          Some (fold (\<lambda>key d'. d'(lowerCaseFirstLetter (pascalcase key) \<mapsto> js_get d' key)) keys d))"

section \<open>The session registry\<close>

definition ENDPOINT :: string where
  "ENDPOINT = ''/catch/api-proxy/api/sessions/''"

definition getSessionValue :: "jsobj \<Rightarrow> jsobj" where
  "getSessionValue session =
     [''projectUuid'' \<mapsto> js_or (js_get session ''projectUuid'') (js_get session ''project_uuid''),
      ''pipelineUuid'' \<mapsto> js_or (js_get session ''pipelineUuid'') (js_get session ''pipeline_uuid'')]"

definition sessionValue_keys :: "string list" where
  \<comment> \<open>Object.keys of an object built by getSessionValue\<close>
  "sessionValue_keys = [''projectUuid'', ''pipelineUuid'']"

fun isSession :: "jsobj option \<Rightarrow> jsobj option \<Rightarrow> bool" where
  "isSession (Some a) (Some b) =
     (let sessionA = getSessionValue a; sessionB = getSessionValue b
      in \<not> list_ex (\<lambda>key. js_get sessionA key \<noteq> js_get sessionB key) sessionValue_keys)"
| "isSession _ _ = False"

definition isStoppable :: "jsval \<Rightarrow> bool" where
  "isStoppable status = (status \<in> set [Str ''RUNNING'', Str ''LAUNCHING''])"

datatype request =
    DELETE string
  | POST string (pipeline_uuid: jsval) (project_uuid: jsval)

definition stopSession :: "jsobj \<Rightarrow> request" where
  "stopSession s =
     DELETE (ENDPOINT @ to_string (js_get s ''projectUuid'') @ ''/'' @ to_string (js_get s ''pipelineUuid''))"

record SessionsContextState =
  sessions :: "jsobj list"
  sessionsIsLoading :: bool
  sessionsKillAllInProgress :: bool

datatype Action =
    SET_SESSIONS "jsobj list" "bool option"
  | SET_IS_KILLING_ALL_SESSIONS bool

fun reduce_action :: "SessionsContextState \<Rightarrow> Action \<Rightarrow> SessionsContextState" where
  "reduce_action state (SET_SESSIONS ss isLoading) =
     state\<lparr>sessions := ss,
           sessionsIsLoading := (case isLoading of Some b \<Rightarrow> b | None \<Rightarrow> sessionsIsLoading state)\<rparr>"
| "reduce_action state (SET_IS_KILLING_ALL_SESSIONS b) = state\<lparr>sessionsKillAllInProgress := b\<rparr>"

definition reducer ::
  "SessionsContextState \<Rightarrow> Action + (SessionsContextState \<Rightarrow> Action) \<Rightarrow> SessionsContextState" where
  \<comment> \<open>An action is a value or a callback on the previous state.\<close>
  "reducer state action =
     reduce_action state (case action of Inl a \<Rightarrow> a | Inr callback \<Rightarrow> callback state)"

definition initialState :: SessionsContextState where
  "initialState = \<lparr>sessions = [], sessionsIsLoading = True, sessionsKillAllInProgress = False\<rparr>"

definition getSession :: "SessionsContextState \<Rightarrow> jsobj \<Rightarrow> jsobj option" where
  "getSession state session =
     List.find (\<lambda>stateSession. isSession (Some session) (Some stateSession)) (sessions state)"

definition setSession_callback :: "jsobj \<Rightarrow> SessionsContextState \<Rightarrow> Action" where
  "setSession_callback newSessionData currentState =
     (let isMatching = (\<lambda>sessionData. isSession (Some newSessionData) (Some sessionData));
          found = list_ex isMatching (sessions currentState);
          newSessions =
            map (\<lambda>sessionData.
                  if isMatching sessionData then sessionData ++ newSessionData else sessionData)
              (sessions currentState);
          outcome =
            (if found then newSessions
             else newSessions @ [newSessionData(''status'' \<mapsto> Str ''LAUNCHING'')])
      in SET_SESSIONS outcome None)"

definition setSession :: "jsobj option \<Rightarrow> SessionsContextState \<Rightarrow> SessionsContextState" where
  "setSession newSessionData state =
     (case newSessionData of
        None \<Rightarrow> state
      | Some d \<Rightarrow> reducer state (Inr (setSession_callback d)))"

subsection \<open>The toggle protocol\<close>

text \<open>
  The provider's effects are collected in a record: the reducer state, the requests handed
  to \<^verbatim>\<open>fetcher\<close>, the alerts raised through \<^verbatim>\<open>setAlert\<close> and the lines written with
  \<^verbatim>\<open>console.error\<close>. The state a call leaves is the state after React has applied
  the actions the call dispatched, and every call of \<^verbatim>\<open>toggleSession\<close> reads the state
  of the latest render, which is that state.
  An asynchronous function is split at its \<^verbatim>\<open>await\<close>: the call runs up to the request
  and says what it waits for, and the settle step runs the handlers on the outcome.
\<close>

record world =
  state :: SessionsContextState
  requests :: "request list"
  alerts :: "(string \<times> string) list"
  console :: "string list"

datatype pending = NoRequest | StopPending | LaunchPending

datatype 'a outcome = Fulfilled 'a | Rejected (message: jsval)

fun mutate_first :: "('a \<Rightarrow> bool) \<Rightarrow> ('a \<Rightarrow> 'a) \<Rightarrow> 'a list \<Rightarrow> 'a list" where
  \<comment> \<open>The array after the element find returns has been changed in place.\<close>
  "mutate_first P f [] = []"
| "mutate_first P f (x # xs) = (if P x then f x # xs else x # mutate_first P f xs)"

definition camelKeys :: "jsobj \<Rightarrow> jsobj" where
  "camelKeys d = the (convertKeyToCamelCase (Some d) [''project_uuid'', ''pipeline_uuid''])"

definition launch :: "jsobj \<Rightarrow> world \<Rightarrow> world \<times> pending" where
  "launch payload w =
     (let w' = w\<lparr>state := setSession (Some (payload(''status'' \<mapsto> Str ''LAUNCHING''))) (state w)\<rparr>
      in (w'\<lparr>requests := requests w' @
                [POST ENDPOINT (js_get payload ''pipelineUuid'') (js_get payload ''projectUuid'')]\<rparr>,
          LaunchPending))"

definition toggleSession :: "jsobj \<Rightarrow> world \<Rightarrow> world \<times> pending" where
  "toggleSession payload w =
     (let matches = (\<lambda>session. isSession (Some session) (Some payload));
          foundSession = List.find matches (sessions (state w));
          session = convertKeyToCamelCase foundSession [''project_uuid'', ''pipeline_uuid''];
          w1 = w\<lparr>state := (state w)\<lparr>sessions := mutate_first matches camelKeys (sessions (state w))\<rparr>\<rparr>
      in case session of
           None \<Rightarrow> launch payload w1
         | Some s \<Rightarrow>
             if js_get s ''status'' \<in> set [Str ''LAUNCHING'', Str ''STOPPING''] then (w1, NoRequest)
             else if js_get s ''status'' = Str ''RUNNING'' then
               (let w2 = w1\<lparr>state := setSession (Some (s(''status'' \<mapsto> Str ''STOPPING''))) (state w1)\<rparr>
                in (w2\<lparr>requests := requests w2 @ [stopSession s]\<rparr>, StopPending))
             else launch payload w1)"

fun toggleSession_settle :: "pending \<Rightarrow> jsobj option outcome \<Rightarrow> world \<Rightarrow> world" where
  "toggleSession_settle NoRequest _ w = w"
| "toggleSession_settle StopPending (Fulfilled _) w = w"
| "toggleSession_settle StopPending (Rejected m) w =
     w\<lparr>alerts := alerts w @ [(''Error'', ''Failed to stop session.'')],
       console := console w @ [to_string m]\<rparr>"
| "toggleSession_settle LaunchPending (Fulfilled sessionDetails) w =
     w\<lparr>state := setSession sessionDetails (state w)\<rparr>"
| "toggleSession_settle LaunchPending (Rejected m) w =
     (let w' = (if truthy m
                then w\<lparr>alerts := alerts w @
                         [(''Error'', ''Error while starting the session: '' @ to_string m)]\<rparr>
                else w)
      in w'\<lparr>console := console w' @ [to_string m]\<rparr>)"

subsection \<open>Stopping every session\<close>

text \<open>
  \<^verbatim>\<open>deleteAllSessions\<close> collects the sessions to stop in the array
  \<^verbatim>\<open>sessionsToStop\<close>, which its second dispatch fills from inside the callback it hands
  to the reducer, and reads the array in the statement that follows the dispatch. Whether
  the callback has run by then is React's choice and not the provider's: within a batch (an
  event handler) a dispatch only queues the action and the reducer runs at the next render,
  after the array has been read; outside a batch the action is applied before the dispatch
  returns. The schedule is therefore a parameter. The state the call leaves is the state
  after the queued actions have been applied, in either schedule.
\<close>

datatype scheduling = Batched | Immediate

definition deleteAllSessions_callback :: "SessionsContextState \<Rightarrow> Action \<times> jsobj list" where
  \<comment> \<open>The action the callback returns, and what it pushes onto sessionsToStop.\<close>
  "deleteAllSessions_callback currentState =
     (SET_SESSIONS
        (map (\<lambda>sessionValue.
               sessionValue(''status'' \<mapsto>
                 (if isStoppable (js_get sessionValue ''status'') then Str ''STOPPING''
                  else js_get sessionValue ''status'')))
           (sessions currentState))
        None,
      map (\<lambda>sessionValue.
            [''projectUuid'' \<mapsto> js_get sessionValue ''projectUuid'',
             ''pipelineUuid'' \<mapsto> js_get sessionValue ''pipelineUuid''])
        (filter (\<lambda>sessionValue. isStoppable (js_get sessionValue ''status''))
           (sessions currentState)))"

definition deleteAllSessions :: "scheduling \<Rightarrow> world \<Rightarrow> world" where
  "deleteAllSessions schedule w =
     (let s1 = reducer (state w) (Inl (SET_IS_KILLING_ALL_SESSIONS True));
          s2 = reducer s1 (Inr (\<lambda>currentState. fst (deleteAllSessions_callback currentState)));
          sessionsToStop =
            (case schedule of
               Immediate \<Rightarrow> snd (deleteAllSessions_callback s1)
             | Batched \<Rightarrow> [])
      in w\<lparr>state := s2, requests := requests w @ map stopSession sessionsToStop\<rparr>)"

definition deleteAllSessions_settle :: "bool list \<Rightarrow> world \<Rightarrow> world" where
  \<comment> \<open>Promise.all over the stop requests: one outcome per request, True for
      a fulfilled one. It is fulfilled when all are, and rejected as soon as one is.\<close>
  "deleteAllSessions_settle outcomes w =
     (if list_all (\<lambda>ok. ok) outcomes then
        w\<lparr>state :=
            reducer (reducer (state w) (Inl (SET_SESSIONS [] None)))
              (Inl (SET_IS_KILLING_ALL_SESSIONS False))\<rparr>
      else w\<lparr>console := console w @ [''Unable to stop all sessions'']\<rparr>)"

definition initialWorld :: world where
  "initialWorld = \<lparr>state = initialState, requests = [], alerts = [], console = []\<rparr>"

section \<open>The notebook bridge\<close>

text \<open>
  \<^verbatim>\<open>Jupyter.tsx\<close> drives JupyterLab inside an iframe. What the bridge reads of the
  frame's window is given here as data: the application object \<^verbatim>\<open>_orchest_app\<close> with
  its shell, the document manager \<^verbatim>\<open>_orchest_docmanager\<close>, and the frame's location.
  An object the bridge dereferences may be missing; reading a property of
  \<^verbatim>\<open>undefined\<close> or \<^verbatim>\<open>null\<close> raises a \<^verbatim>\<open>TypeError\<close>, which is a value here.
  A function that can raise returns \<open>Inl\<close> of the error, and then says nothing of the
  state the call left behind.
\<close>

datatype error = TypeError

record jnode =
  classList :: "string list"
  offsetParentNull :: bool

record jwidget =
  wid :: string
  node :: "jnode option"
  model_dirty :: "bool option"
  widget_context :: "string option option"

text \<open>
  \<^term>\<open>wid\<close> is the path of the document a widget shows. \<^term>\<open>model_dirty\<close> is
  \<^verbatim>\<open>widget.model.dirty\<close>, \<open>None\<close> when the widget has no model.
  \<^term>\<open>widget_context\<close> is \<open>None\<close> when \<^verbatim>\<open>widget.context\<close> is missing,
  \<open>Some None\<close> when its session context, the session or the kernel is falsy, and
  otherwise holds the name of the kernel the notebook is bound to.
\<close>

record jshellnode =
  clientWidth :: int
  mainContentPanel :: "int option"

record jshell =
  widgets_default :: "jwidget list"
  widgets_main :: "jwidget list"
  shell_node :: "jshellnode option"

record japp =
  shell :: "jshell option"

record docmanager =
  open_widgets :: "jwidget list"
  contexts :: "string list"

text \<open>
  \<^term>\<open>mainContentPanel\<close> is the \<^verbatim>\<open>clientWidth\<close> of the element
  \<^verbatim>\<open>querySelector("#jp-main-content-panel")\<close> finds, \<open>None\<close> when it finds none.
  \<^term>\<open>widgets_default\<close> and \<^term>\<open>widgets_main\<close> are what \<^verbatim>\<open>shell.widgets()\<close>
  and \<^verbatim>\<open>shell.widgets("main")\<close> iterate over. \<^term>\<open>contexts\<close> lists the widgets
  for which \<^verbatim>\<open>contextForWidget\<close> finds a context.
\<close>

record nbsession =
  session_id :: string
  session_kernel :: "string option"

datatype confirm_action =
    ChangeKernel (notebook: string) (kernel: string)
  | ShutdownSession (notebook: string) (kernel: string) string

record Jupyter =
  baseAddress :: string
  reloadOnShow :: bool
  iframeHasLoaded :: bool
  showCheckInterval :: bool
  pendingKernelChanges :: "string \<rightharpoonup> bool"
  hidden :: bool
  location_href :: string
  orchest_app :: "japp option"
  orchest_docmanager :: "docmanager option"
  navigations :: "string list"
  reloads :: nat
  reverted :: "string list"
  prompts :: "(string \<times> string \<times> confirm_action) list"
  kernel_requests :: "confirm_action list"
  path_lookups :: "string list"
  bridge_console :: nat

text \<open>
  The first five fields are the object's own. \<^term>\<open>hidden\<close> is the class of the holder
  element, \<^term>\<open>showCheckInterval\<close> says whether the polling timer is set, and
  \<^term>\<open>location_href\<close> is the address of the frame, which follows a navigation at once.
  The remaining fields record what the bridge did to its surroundings: the addresses given
  to \<^verbatim>\<open>location.replace\<close>, the calls of \<^verbatim>\<open>location.reload\<close>, the documents
  reverted, the confirmation prompts, the kernel changes and session shutdowns requested,
  the session lookups by path and the number of errors logged.
  The methods whose names start with an underscore have the prefix \<open>priv_\<close>, and
  \<^verbatim>\<open>show\<close> and \<^verbatim>\<open>hide\<close> are \<open>showJupyter\<close> and \<open>hideJupyter\<close>.
\<close>

definition priv_setJupyterAddress :: "string \<Rightarrow> Jupyter \<Rightarrow> Jupyter" where
  "priv_setJupyterAddress url j =
     j\<lparr>iframeHasLoaded := False, location_href := url, navigations := navigations j @ [url]\<rparr>"

definition unload :: "Jupyter \<Rightarrow> Jupyter" where
  "unload j = priv_setJupyterAddress ''about:blank'' j"

definition updateJupyterInstance :: "string \<Rightarrow> Jupyter \<Rightarrow> Jupyter" where
  "updateJupyterInstance newAddress j =
     (let j' = (if baseAddress j \<noteq> newAddress then unload j else j)
      in j'\<lparr>baseAddress := newAddress\<rparr>)"

definition priv_unhide :: "Jupyter \<Rightarrow> Jupyter" where
  "priv_unhide j = j\<lparr>hidden := False\<rparr>"

definition priv_loadIframe :: "Jupyter \<Rightarrow> Jupyter" where
  "priv_loadIframe j = j\<lparr>iframeHasLoaded := True\<rparr>"

fun indexOf_from :: "nat \<Rightarrow> string \<Rightarrow> string \<Rightarrow> int" where
  "indexOf_from i [] t = (if t = [] then int i else - 1)"
| "indexOf_from i (c # cs) t =
     (if take (length t) (c # cs) = t then int i else indexOf_from (Suc i) cs t)"

definition indexOf :: "string \<Rightarrow> string \<Rightarrow> int" where
  "indexOf s t = indexOf_from 0 s t"

subsection \<open>Reloading files\<close>

definition reloadFilesFromDisk :: "Jupyter \<Rightarrow> Jupyter" where
  "reloadFilesFromDisk j = j\<lparr>reloadOnShow := True\<rparr>"

definition contextForWidget :: "docmanager \<Rightarrow> jwidget \<Rightarrow> string option" where
  "contextForWidget dm w = (if wid w \<in> set (contexts dm) then Some (wid w) else None)"

fun revert_widgets :: "docmanager option \<Rightarrow> jwidget list \<Rightarrow> string list \<Rightarrow> error + string list" where
  "revert_widgets docManager [] done = Inr done"
| "revert_widgets docManager (widget # rest) done =
     (case node widget of
        None \<Rightarrow> revert_widgets docManager rest done
      | Some n \<Rightarrow>
          if ''jp-NotebookPanel'' \<in> set (classList n) then
            (case model_dirty widget of
               None \<Rightarrow> Inl TypeError
             | Some dirty \<Rightarrow>
                 if \<not> dirty then
                   (case docManager of
                      None \<Rightarrow> Inl TypeError
                    | Some dm \<Rightarrow>
                        (case contextForWidget dm widget of
                           None \<Rightarrow> revert_widgets docManager rest done
                         | Some ctx \<Rightarrow> revert_widgets docManager rest (done @ [ctx])))
                 else revert_widgets docManager rest done)
          else revert_widgets docManager rest done)"

definition priv_reloadFilesFromDisk :: "Jupyter \<Rightarrow> error + Jupyter" where
  "priv_reloadFilesFromDisk j =
     (case orchest_app j of
        None \<Rightarrow> Inr j
      | Some lab \<Rightarrow>
          (case shell lab of
             None \<Rightarrow> Inl TypeError
           | Some sh \<Rightarrow>
               (case revert_widgets (orchest_docmanager j) (widgets_main sh) (reverted j) of
                  Inl e \<Rightarrow> Inl e
                | Inr r \<Rightarrow> Inr (j\<lparr>reloadOnShow := False, reverted := r\<rparr>))))"

subsection \<open>Readiness\<close>

fun widgetOnScreen :: "jwidget list \<Rightarrow> error + bool" where
  "widgetOnScreen [] = Inr False"
| "widgetOnScreen (widget # rest) =
     (case node widget of
        None \<Rightarrow> Inl TypeError
      | Some n \<Rightarrow> if \<not> offsetParentNull n then Inr True else widgetOnScreen rest)"

definition isJupyterLoaded_try :: "Jupyter \<Rightarrow> error + bool" where
  "isJupyterLoaded_try j =
     (case orchest_app j of
        None \<Rightarrow> Inl TypeError
      | Some app \<Rightarrow>
          (case shell app of
             None \<Rightarrow> Inl TypeError
           | Some sh \<Rightarrow> widgetOnScreen (widgets_default sh)))"

definition isJupyterLoaded :: "Jupyter \<Rightarrow> bool" where
  "isJupyterLoaded j = (case isJupyterLoaded_try j of Inl e \<Rightarrow> False | Inr b \<Rightarrow> b)"

definition isJupyterShellRenderedCorrectly_try :: "Jupyter \<Rightarrow> error + bool" where
  "isJupyterShellRenderedCorrectly_try j =
     (case orchest_app j of
        None \<Rightarrow> Inl TypeError
      | Some app \<Rightarrow>
          (case shell app of
             None \<Rightarrow> Inl TypeError
           | Some sh \<Rightarrow>
               (case shell_node sh of
                  None \<Rightarrow> Inl TypeError
                | Some n \<Rightarrow>
                    (case mainContentPanel n of
                       None \<Rightarrow> Inl TypeError
                     | Some width \<Rightarrow> Inr (width = clientWidth n \<or> width > 500)))))"

definition isJupyterShellRenderedCorrectly :: "Jupyter \<Rightarrow> bool" where
  "isJupyterShellRenderedCorrectly j =
     (case isJupyterShellRenderedCorrectly_try j of Inl e \<Rightarrow> False | Inr b \<Rightarrow> b)"

definition fixJupyterRenderingGlitch :: "Jupyter \<Rightarrow> Jupyter" where
  "fixJupyterRenderingGlitch j =
     (if isJupyterLoaded j \<and> \<not> isJupyterShellRenderedCorrectly j
      then j\<lparr>iframeHasLoaded := False, reloads := Suc (reloads j)\<rparr>
      else j)"

subsection \<open>Showing and hiding\<close>

definition showJupyter :: "Jupyter \<Rightarrow> error + Jupyter" where
  "showJupyter j =
     (case (if reloadOnShow j then priv_reloadFilesFromDisk (j\<lparr>reloadOnShow := False\<rparr>) else Inr j) of
        Inl e \<Rightarrow> Inl e
      | Inr j1 \<Rightarrow>
          (let j2 = (if indexOf (location_href j1) (baseAddress j1) = - 1
                     then priv_setJupyterAddress (baseAddress j1 @ ''/lab'') j1
                     else j1);
               j3 = fixJupyterRenderingGlitch j2
           in Inr (j3\<lparr>showCheckInterval := True\<rparr>)))"

definition showCheck :: "Jupyter \<Rightarrow> Jupyter" where
  "showCheck j =
     (if showCheckInterval j \<and> iframeHasLoaded j
      then (priv_unhide j)\<lparr>showCheckInterval := False\<rparr>
      else j)"

definition hideJupyter :: "Jupyter \<Rightarrow> Jupyter" where
  "hideJupyter j = j\<lparr>hidden := True, showCheckInterval := False\<rparr>"

subsection \<open>Changing the kernel of a notebook\<close>

definition warningMessage :: string where
  "warningMessage =
     ''Do you want to change the active kernel of the opened '' @
     ''Notebook? \<newline>\<newline>You will lose the current kernel's state if no other Notebook '' @
     ''is attached to it.''"

definition pendingKey :: "string \<Rightarrow> string \<Rightarrow> string" where
  "pendingKey nb k = nb @ ''-'' @ k"

definition isKernelChangePending :: "string \<Rightarrow> string \<Rightarrow> Jupyter \<Rightarrow> bool" where
  "isKernelChangePending nb k j = (pendingKernelChanges j (pendingKey nb k) = Some True)"

definition setKernelChangePending :: "string \<Rightarrow> string \<Rightarrow> bool \<Rightarrow> Jupyter \<Rightarrow> Jupyter" where
  "setKernelChangePending nb k v j =
     j\<lparr>pendingKernelChanges := (pendingKernelChanges j)(pendingKey nb k \<mapsto> v)\<rparr>"

definition setConfirm :: "string \<Rightarrow> string \<Rightarrow> confirm_action \<Rightarrow> Jupyter \<Rightarrow> Jupyter" where
  "setConfirm title content onConfirm j = j\<lparr>prompts := prompts j @ [(title, content, onConfirm)]\<rparr>"

definition findWidget :: "docmanager \<Rightarrow> string \<Rightarrow> jwidget option" where
  "findWidget dm path = List.find (\<lambda>w. wid w = path) (open_widgets dm)"

definition setNotebookKernel :: "string \<Rightarrow> string \<Rightarrow> Jupyter \<Rightarrow> error + Jupyter \<times> bool" where
  "setNotebookKernel nb k j =
     (case orchest_app j of
        None \<Rightarrow> Inr (j, False)
      | Some app \<Rightarrow>
          (case orchest_docmanager j of
             None \<Rightarrow> Inl TypeError
           | Some docManager \<Rightarrow>
               (case findWidget docManager nb of
                  Some notebookWidget \<Rightarrow>
                    (case widget_context notebookWidget of
                       None \<Rightarrow> Inl TypeError
                     | Some None \<Rightarrow> Inr (j, False)
                     | Some (Some name) \<Rightarrow>
                         if name \<noteq> k then
                           if \<not> isKernelChangePending nb k j then
                             Inr (setConfirm ''Warning'' warningMessage (ChangeKernel nb k)
                                    (setKernelChangePending nb k True j), False)
                           else Inr (j, False)
                         else Inr (j, False))
                | None \<Rightarrow> Inr (j\<lparr>path_lookups := path_lookups j @ [nb]\<rparr>, True))))"

definition setNotebookKernel_found :: "string \<Rightarrow> string \<Rightarrow> nbsession option outcome \<Rightarrow> Jupyter \<Rightarrow> Jupyter" where
  "setNotebookKernel_found nb k found j =
     (case found of
        Rejected m \<Rightarrow> j\<lparr>bridge_console := Suc (bridge_console j)\<rparr>
      | Fulfilled None \<Rightarrow> j
      | Fulfilled (Some notebookSession) \<Rightarrow>
          (case session_kernel notebookSession of
             None \<Rightarrow> j
           | Some name \<Rightarrow>
               if name \<noteq> k then
                 if \<not> isKernelChangePending nb k j then
                   setConfirm ''Warning'' warningMessage
                     (ShutdownSession nb k (session_id notebookSession))
                     (setKernelChangePending nb k True j)
                 else j
               else j))"

definition onConfirm_call :: "confirm_action \<Rightarrow> Jupyter \<Rightarrow> Jupyter" where
  "onConfirm_call action j = j\<lparr>kernel_requests := kernel_requests j @ [action]\<rparr>"

definition onConfirm_settle :: "confirm_action \<Rightarrow> unit outcome \<Rightarrow> Jupyter \<Rightarrow> Jupyter \<times> bool" where
  "onConfirm_settle action result j =
     (case result of
        Fulfilled u \<Rightarrow> (setKernelChangePending (notebook action) (kernel action) False j, True)
      | Rejected m \<Rightarrow>
          ((setKernelChangePending (notebook action) (kernel action) False j)
             \<lparr>bridge_console := Suc (bridge_console j)\<rparr>, False))"

text \<open>
  \<^verbatim>\<open>setNotebookKernel\<close> returns whether it started a lookup of the notebook's session
  by path; \<^term>\<open>setNotebookKernel_found\<close> is the handler of that lookup. The callback
  handed to the prompt is \<^term>\<open>onConfirm_call\<close>, which runs when the user confirms and
  sends the request, followed by \<^term>\<open>onConfirm_settle\<close> when the request has settled;
  it returns the value given to \<^verbatim>\<open>resolve\<close>.
\<close>

section \<open>Notions used to state the properties\<close>

definition camelCaseId :: "string \<Rightarrow> string \<Rightarrow> jsobj" where
  "camelCaseId p q = [''projectUuid'' \<mapsto> Str p, ''pipelineUuid'' \<mapsto> Str q]"

definition snake_case_id :: "string \<Rightarrow> string \<Rightarrow> jsobj" where
  "snake_case_id p q = [''project_uuid'' \<mapsto> Str p, ''pipeline_uuid'' \<mapsto> Str q]"

definition identity :: "jsobj \<Rightarrow> jsval \<times> jsval" where
  \<comment> \<open>The two values isSession compares.\<close>
  "identity session =
     (js_get (getSessionValue session) ''projectUuid'',
      js_get (getSessionValue session) ''pipelineUuid'')"

definition status_of :: "jsobj \<Rightarrow> jsval" where
  "status_of session = js_get session ''status''"

definition unique_sessions :: "SessionsContextState \<Rightarrow> bool" where
  "unique_sessions st = distinct (map identity (sessions st))"

definition registry :: "jsobj list \<Rightarrow> world" where
  "registry ss = initialWorld\<lparr>state := initialState\<lparr>sessions := ss\<rparr>\<rparr>"

definition toggle :: "jsobj \<Rightarrow> world \<Rightarrow> world" where
  "toggle payload w = fst (toggleSession payload w)"

definition revertible :: "docmanager \<Rightarrow> jwidget \<Rightarrow> bool" where
  \<comment> \<open>A notebook panel without unsaved changes whose context is found.\<close>
  "revertible dm w =
     ((case node w of None \<Rightarrow> False | Some n \<Rightarrow> ''jp-NotebookPanel'' \<in> set (classList n))
      \<and> model_dirty w = Some False \<and> wid w \<in> set (contexts dm))"

definition panel_has_model :: "jwidget \<Rightarrow> bool" where
  "panel_has_model w =
     (case node w of
        None \<Rightarrow> True
      | Some n \<Rightarrow> if ''jp-NotebookPanel'' \<in> set (classList n) then model_dirty w \<noteq> None else True)"

definition newJupyter :: "bool \<Rightarrow> Jupyter" where
  \<comment> \<open>The object the constructor leaves, in a holder that is hidden or not.\<close>
  "newJupyter holderHidden =
     \<lparr>baseAddress = [], reloadOnShow = False, iframeHasLoaded = False,
      showCheckInterval = False, pendingKernelChanges = Map.empty, hidden = holderHidden,
      location_href = ''about:blank'', orchest_app = None, orchest_docmanager = None,
      navigations = [], reloads = 0, reverted = [], prompts = [], kernel_requests = [],
      path_lookups = [], bridge_console = 0\<rparr>"

definition notebookPanel :: "string \<Rightarrow> bool \<Rightarrow> string \<Rightarrow> jwidget" where
  "notebookPanel path dirty kernelName =
     \<lparr>wid = path,
      node = Some \<lparr>classList = [''jp-NotebookPanel''], offsetParentNull = False\<rparr>,
      model_dirty = Some dirty,
      widget_context = Some (Some kernelName)\<rparr>"

definition loadedJupyter :: "jwidget list \<Rightarrow> Jupyter" where
  \<comment> \<open>A visible bridge whose frame has loaded JupyterLab with the given open widgets.\<close>
  "loadedJupyter ws =
     (newJupyter False)
       \<lparr>baseAddress := ''http://host/jupyter'', iframeHasLoaded := True,
        location_href := ''http://host/jupyter/lab'',
        orchest_app :=
          Some \<lparr>shell = Some \<lparr>widgets_default = ws, widgets_main = ws,
                               shell_node = Some \<lparr>clientWidth = 1200, mainContentPanel = Some 1200\<rparr>\<rparr>\<rparr>,
        orchest_docmanager := Some \<lparr>open_widgets = ws, contexts = map wid ws\<rparr>\<rparr>"

section \<open>Reading objects and comparing identities\<close>

lemma camel_keys:
  "lowerCaseFirstLetter (pascalcase ''project_uuid'') = ''projectUuid''"
  "lowerCaseFirstLetter (pascalcase ''pipeline_uuid'') = ''pipelineUuid''"
  by (simp_all add: lowerCaseFirstLetter_def pascalcase_def titlecase_def is_alnum_def
      toUpperCase_def toLowerCase_def lower_letters_def upper_letters_def)

lemma isSession_identity:
  "isSession (Some a) (Some b) = (identity a = identity b)"
  by (auto simp add: identity_def sessionValue_keys_def Let_def)

lemma js_get_upd: "js_get (m(k \<mapsto> v)) k' = (if k' = k then v else js_get m k')"
  by (simp add: js_get_def)

lemma js_get_empty: "js_get Map.empty k = Undefined"
  by (simp add: js_get_def)

lemma js_get_add: "js_get (e ++ n) k = (case n k of None \<Rightarrow> js_get e k | Some v \<Rightarrow> v)"
  by (simp add: js_get_def map_add_def split: option.splits)

lemma identity_alt:
  "identity x =
     (js_or (js_get x ''projectUuid'') (js_get x ''project_uuid''),
      js_or (js_get x ''pipelineUuid'') (js_get x ''pipeline_uuid''))"
  by (simp add: identity_def getSessionValue_def js_get_upd js_get_empty)

lemma js_or_merge:
  assumes "js_or (js_get n c) (js_get n s) = js_or (js_get e c) (js_get e s)"
  shows "js_or (js_get (e ++ n) c) (js_get (e ++ n) s) = js_or (js_get n c) (js_get n s)"
proof (cases "n c")
  case None
  then have nc: "js_get n c = Undefined" by (simp add: js_get_def)
  show ?thesis
  proof (cases "n s")
    case None
    then have "js_get n s = Undefined" by (simp add: js_get_def)
    with assms nc \<open>n c = None\<close> \<open>n s = None\<close> show ?thesis
      by (simp add: js_get_add)
  next
    case (Some v)
    then have "js_get n s = v" by (simp add: js_get_def)
    with assms nc \<open>n c = None\<close> Some show ?thesis
      by (simp add: js_get_add js_or_def truthy_def split: if_splits)
  qed
next
  case (Some u)
  then have nc: "js_get n c = u" by (simp add: js_get_def)
  show ?thesis
  proof (cases "n s")
    case None
    then have "js_get n s = Undefined" by (simp add: js_get_def)
    with assms nc Some None show ?thesis
      by (simp add: js_get_add js_or_def truthy_def split: if_splits)
  next
    case (Some v)
    then have "js_get n s = v" by (simp add: js_get_def)
    with nc \<open>n c = Some u\<close> Some show ?thesis
      by (simp add: js_get_add)
  qed
qed

lemma identity_merge:
  "identity new = identity e \<Longrightarrow> identity (e ++ new) = identity new"
  by (simp add: identity_alt js_or_merge)

lemma identity_status: "identity (d(''status'' \<mapsto> v)) = identity d"
  by (simp add: identity_alt js_get_upd)

section \<open>The registry keeps identities apart\<close>

lemma merged_identities:
  "map identity (map (\<lambda>e. if identity d = identity e then e ++ d else e) ss) = map identity ss"
proof (induction ss)
  case Nil
  show ?case by simp
next
  case (Cons e ss)
  have "identity (if identity d = identity e then e ++ d else e) = identity e"
    using identity_merge [of d e] by simp
  with Cons show ?case by simp
qed

lemma found_identity:
  "list_ex (\<lambda>e. identity d = identity e) ss = (identity d \<in> set (map identity ss))"
  by (induction ss) auto

lemma setSession_identities:
  "map identity (sessions (setSession (Some d) st)) =
     (if identity d \<in> set (map identity (sessions st)) then map identity (sessions st)
      else map identity (sessions st) @ [identity d])"
  using merged_identities [of d "sessions st"] found_identity [of d "sessions st"]
  by (simp add: setSession_def reducer_def setSession_callback_def isSession_identity Let_def
        identity_status del: isSession.simps)

lemma setSession_unique:
  assumes "unique_sessions st"
  shows "unique_sessions (setSession d st)"
proof (cases d)
  case None
  with assms show ?thesis by (simp add: setSession_def)
next
  case (Some new)
  from assms show ?thesis
    unfolding unique_sessions_def Some setSession_identities by simp
qed

lemma deleteAllSessions_identities:
  "map identity (sessions (state (deleteAllSessions schedule w))) = map identity (sessions (state w))"
  by (simp add: deleteAllSessions_def deleteAllSessions_callback_def reducer_def Let_def
      identity_status comp_def)

lemmas js_eval = js_get_def js_or_def truthy_def to_string_def getSessionValue_def
  sessionValue_keys_def identity_def status_of_def camelCaseId_def snake_case_id_def

lemmas registry_eval = registry_def initialWorld_def initialState_def toggle_def toggleSession_def
  launch_def camelKeys_def convertKeyToCamelCase_def camel_keys setSession_def setSession_callback_def
  reducer_def stopSession_def ENDPOINT_def deleteAllSessions_def deleteAllSessions_callback_def
  deleteAllSessions_settle_def
  isStoppable_def unique_sessions_def getSession_def Let_def

lemma stopSession_ids:
  "stopSession [''projectUuid'' \<mapsto> js_get s ''projectUuid'', ''pipelineUuid'' \<mapsto> js_get s ''pipelineUuid'']
     = stopSession s"
  by (simp add: stopSession_def js_get_upd)

lemma identity_camelCaseId:
  "p \<noteq> [] \<Longrightarrow> q \<noteq> [] \<Longrightarrow> identity (camelCaseId p q) = (Str p, Str q)"
  by (simp add: identity_alt camelCaseId_def js_get_upd js_get_empty js_or_def truthy_def)

lemma identity_snake_case_id:
  "identity (snake_case_id p q) = (Str p, Str q)"
  by (simp add: identity_alt snake_case_id_def js_get_upd js_get_empty js_or_def truthy_def)

section \<open>Reloading and showing\<close>

lemma revert_widgets_step:
  assumes "panel_has_model w"
  shows "revert_widgets (Some dm) (w # ws) acc =
     revert_widgets (Some dm) ws (if revertible dm w then acc @ [wid w] else acc)"
proof (cases "node w")
  case None
  then show ?thesis by (simp add: revertible_def)
next
  case (Some n)
  show ?thesis
  proof (cases "model_dirty w")
    case None
    with assms \<open>node w = Some n\<close> show ?thesis
      by (auto simp add: revertible_def panel_has_model_def split: if_splits)
  next
    case (Some dirty)
    with \<open>node w = Some n\<close> show ?thesis
      by (simp add: revertible_def contextForWidget_def)
  qed
qed

lemma revert_widgets_result:
  "list_all panel_has_model ws \<Longrightarrow>
     revert_widgets (Some dm) ws acc = Inr (acc @ map wid (filter (revertible dm) ws))"
proof (induction ws arbitrary: acc)
  case Nil
  show ?case by simp
next
  case (Cons w ws)
  from Cons.prems have w: "panel_has_model w" and ws: "list_all panel_has_model ws" by simp_all
  show ?case
    unfolding revert_widgets_step [OF w] Cons.IH [OF ws] by simp
qed

lemma priv_reloadFilesFromDisk_result:
  assumes "orchest_app j = Some lab" and "shell lab = Some sh" and "orchest_docmanager j = Some dm"
    and "list_all panel_has_model (widgets_main sh)"
  shows "priv_reloadFilesFromDisk j =
     Inr (j\<lparr>reloadOnShow := False,
            reverted := reverted j @ map wid (filter (revertible dm) (widgets_main sh))\<rparr>)"
  using assms by (simp add: priv_reloadFilesFromDisk_def revert_widgets_result)

lemma priv_reloadFilesFromDisk_frame:
  "priv_reloadFilesFromDisk j = Inr j' \<Longrightarrow>
     navigations j' = navigations j \<and> location_href j' = location_href j \<and> baseAddress j' = baseAddress j"
  by (auto simp add: priv_reloadFilesFromDisk_def split: option.splits sum.splits)

lemma fixJupyterRenderingGlitch_frame:
  "navigations (fixJupyterRenderingGlitch j) = navigations j
   \<and> reverted (fixJupyterRenderingGlitch j) = reverted j
   \<and> reloadOnShow (fixJupyterRenderingGlitch j) = reloadOnShow j"
  by (simp add: fixJupyterRenderingGlitch_def)

lemma priv_setJupyterAddress_frame:
  "reverted (priv_setJupyterAddress url j) = reverted j
   \<and> reloadOnShow (priv_setJupyterAddress url j) = reloadOnShow j"
  by (simp add: priv_setJupyterAddress_def)

lemma showJupyter_navigations:
  assumes "showJupyter j = Inr j'"
  shows "navigations j' = navigations j @
     (if indexOf (location_href j) (baseAddress j) = - 1 then [baseAddress j @ ''/lab''] else [])"
proof (cases "reloadOnShow j")
  case False
  with assms show ?thesis
    by (auto simp add: showJupyter_def Let_def fixJupyterRenderingGlitch_frame priv_setJupyterAddress_def)
next
  case True
  with assms obtain j1 where j1: "priv_reloadFilesFromDisk (j\<lparr>reloadOnShow := False\<rparr>) = Inr j1"
    by (auto simp add: showJupyter_def split: sum.splits)
  from priv_reloadFilesFromDisk_frame [OF j1]
  have frame: "navigations j1 = navigations j" "location_href j1 = location_href j" "baseAddress j1 = baseAddress j"
    by simp_all
  from assms True j1 frame show ?thesis
    by (auto simp add: showJupyter_def Let_def fixJupyterRenderingGlitch_frame priv_setJupyterAddress_def)
qed

lemma showJupyter_returns:
  "\<not> reloadOnShow j \<Longrightarrow> \<exists>j'. showJupyter j = Inr j'"
  by (simp add: showJupyter_def Let_def)

lemma showJupyter_reverts:
  assumes "orchest_app j = Some lab" and "shell lab = Some sh" and "orchest_docmanager j = Some dm"
    and "list_all panel_has_model (widgets_main sh)" and "reloadOnShow j"
  shows "\<exists>j'. showJupyter j = Inr j'
     \<and> reverted j' = reverted j @ map wid (filter (revertible dm) (widgets_main sh))
     \<and> \<not> reloadOnShow j'"
proof -
  have "priv_reloadFilesFromDisk (j\<lparr>reloadOnShow := False\<rparr>) =
     Inr (j\<lparr>reloadOnShow := False,
            reverted := reverted j @ map wid (filter (revertible dm) (widgets_main sh))\<rparr>)"
    using priv_reloadFilesFromDisk_result [of "j\<lparr>reloadOnShow := False\<rparr>" lab sh dm] assms by simp
  with assms(5) show ?thesis
    by (simp add: showJupyter_def Let_def fixJupyterRenderingGlitch_frame priv_setJupyterAddress_frame)
qed

section \<open>Kernel changes\<close>

lemma setNotebookKernel_cases:
  "setNotebookKernel nb k j = Inl TypeError
   \<or> setNotebookKernel nb k j = Inr (j, False)
   \<or> setNotebookKernel nb k j = Inr (j\<lparr>path_lookups := path_lookups j @ [nb]\<rparr>, True)
   \<or> (\<not> isKernelChangePending nb k j
        \<and> setNotebookKernel nb k j =
            Inr (setConfirm ''Warning'' warningMessage (ChangeKernel nb k)
                   (setKernelChangePending nb k True j), False))"
  by (simp add: setNotebookKernel_def split: option.splits)

lemma setNotebookKernel_found_cases:
  "setNotebookKernel_found nb k found j = j
   \<or> setNotebookKernel_found nb k found j = j\<lparr>bridge_console := Suc (bridge_console j)\<rparr>
   \<or> (\<not> isKernelChangePending nb k j
        \<and> (\<exists>ns. found = Fulfilled (Some ns)
              \<and> setNotebookKernel_found nb k found j =
                  setConfirm ''Warning'' warningMessage (ShutdownSession nb k (session_id ns))
                    (setKernelChangePending nb k True j)))"
proof (cases found)
  case (Rejected m)
  then show ?thesis by (simp add: setNotebookKernel_found_def)
next
  case (Fulfilled r)
  show ?thesis
  proof (cases r)
    case None
    with Fulfilled show ?thesis by (simp add: setNotebookKernel_found_def)
  next
    case (Some ns)
    show ?thesis
    proof (cases "session_kernel ns")
      case None
      with Fulfilled Some show ?thesis by (simp add: setNotebookKernel_found_def)
    next
      case (Some name)
      show ?thesis
      proof (cases "name \<noteq> k \<and> \<not> isKernelChangePending nb k j")
        case True
        with Fulfilled \<open>r = Some ns\<close> Some
        have "setNotebookKernel_found nb k found j =
                setConfirm ''Warning'' warningMessage (ShutdownSession nb k (session_id ns))
                  (setKernelChangePending nb k True j)"
          by (simp add: setNotebookKernel_found_def)
        with True Fulfilled \<open>r = Some ns\<close> show ?thesis by blast
      next
        case False
        with Fulfilled \<open>r = Some ns\<close> Some
        have "setNotebookKernel_found nb k found j = j"
          by (auto simp add: setNotebookKernel_found_def)
        then show ?thesis by blast
      qed
    qed
  qed
qed

lemma pending_after_prompt:
  "isKernelChangePending nb k (setConfirm t m a (setKernelChangePending nb k True j))"
  by (simp add: isKernelChangePending_def setConfirm_def setKernelChangePending_def)

lemma onConfirm_settle_clears:
  "\<not> isKernelChangePending (notebook action) (kernel action) (fst (onConfirm_settle action result j))"
  by (simp add: onConfirm_settle_def setKernelChangePending_def isKernelChangePending_def
      split: outcome.splits)

lemma setNotebookKernel_prompting:
  assumes "setNotebookKernel nb k j = Inr (j', l)" and "prompts j' \<noteq> prompts j"
  shows "j' = setConfirm ''Warning'' warningMessage (ChangeKernel nb k) (setKernelChangePending nb k True j)
    \<and> \<not> isKernelChangePending nb k j \<and> isKernelChangePending nb k j' \<and> \<not> l"
  using setNotebookKernel_cases [of nb k j] assms
  by (auto simp add: pending_after_prompt)

lemma setNotebookKernel_found_prompting:
  assumes "prompts (setNotebookKernel_found nb k found j) \<noteq> prompts j"
  shows "(\<exists>sid. setNotebookKernel_found nb k found j =
            setConfirm ''Warning'' warningMessage (ShutdownSession nb k sid)
              (setKernelChangePending nb k True j))
    \<and> \<not> isKernelChangePending nb k j
    \<and> isKernelChangePending nb k (setNotebookKernel_found nb k found j)"
proof -
  from setNotebookKernel_found_cases [of nb k found j]
  consider (same) "setNotebookKernel_found nb k found j = j"
    | (logged) "setNotebookKernel_found nb k found j = j\<lparr>bridge_console := Suc (bridge_console j)\<rparr>"
    | (prompted) ns :: nbsession where "\<not> isKernelChangePending nb k j"
        and "setNotebookKernel_found nb k found j =
                  setConfirm ''Warning'' warningMessage (ShutdownSession nb k (session_id ns))
                    (setKernelChangePending nb k True j)"
    by blast
  then show ?thesis
  proof cases
    case same
    with assms show ?thesis by simp
  next
    case logged
    with assms show ?thesis by simp
  next
    case prompted
    from prompted(2) have "isKernelChangePending nb k (setNotebookKernel_found nb k found j)"
      by (simp add: pending_after_prompt)
    with prompted show ?thesis by blast
  qed
qed

lemma setNotebookKernel_pending:
  assumes "isKernelChangePending nb k j"
  shows "setNotebookKernel nb k j = Inl TypeError
    \<or> setNotebookKernel nb k j = Inr (j, False)
    \<or> setNotebookKernel nb k j = Inr (j\<lparr>path_lookups := path_lookups j @ [nb]\<rparr>, True)"
  using setNotebookKernel_cases [of nb k j] assms by blast

lemma setNotebookKernel_found_pending:
  assumes "isKernelChangePending nb k j"
  shows "setNotebookKernel_found nb k found j = j
    \<or> setNotebookKernel_found nb k found j = j\<lparr>bridge_console := Suc (bridge_console j)\<rparr>"
  using setNotebookKernel_found_cases [of nb k found j] assms by blast

lemmas bridge_eval = newJupyter_def loadedJupyter_def notebookPanel_def
  updateJupyterInstance_def unload_def priv_setJupyterAddress_def reloadFilesFromDisk_def
  priv_reloadFilesFromDisk_def contextForWidget_def showJupyter_def fixJupyterRenderingGlitch_def
  isJupyterLoaded_def isJupyterLoaded_try_def isJupyterShellRenderedCorrectly_def
  isJupyterShellRenderedCorrectly_try_def indexOf_def revertible_def panel_has_model_def
  isKernelChangePending_def setKernelChangePending_def setConfirm_def findWidget_def
  setNotebookKernel_def setNotebookKernel_found_def onConfirm_call_def onConfirm_settle_def
  pendingKey_def Let_def

section \<open>Toggling a session the registry holds\<close>

lemma find_first:
  "list_all (\<lambda>x. \<not> P x) pre \<Longrightarrow> P e \<Longrightarrow> List.find P (pre @ e # post) = Some e"
  by (induction pre) simp_all

lemma mutate_first_first:
  "list_all (\<lambda>x. \<not> P x) pre \<Longrightarrow> P e \<Longrightarrow> mutate_first P f (pre @ e # post) = pre @ f e # post"
  by (induction pre) simp_all

lemma mutate_first_none:
  "list_all (\<lambda>x. \<not> P x) xs \<Longrightarrow> mutate_first P f xs = xs"
  by (induction xs) simp_all

lemma camelKeys_eq:
  "camelKeys e = e(''projectUuid'' \<mapsto> js_get e ''project_uuid'',
                   ''pipelineUuid'' \<mapsto> js_get e ''pipeline_uuid'')"
  by (simp add: camelKeys_def convertKeyToCamelCase_def camel_keys js_get_upd)

lemma camelKeys_status: "status_of (camelKeys e) = status_of e"
  by (simp add: camelKeys_eq status_of_def js_get_upd)

lemma stopSession_camelKeys:
  "stopSession (camelKeys e) =
     DELETE (ENDPOINT @ to_string (js_get e ''project_uuid'') @ ''/'' @ to_string (js_get e ''pipeline_uuid''))"
  by (simp add: camelKeys_eq stopSession_def js_get_upd)

lemma stopSession_status: "stopSession (s(''status'' \<mapsto> v)) = stopSession s"
  by (simp add: stopSession_def js_get_upd)

lemma setSession_found:
  assumes "identity d = identity e"
  shows "setSession (Some d) (st\<lparr>sessions := pre @ e # post\<rparr>) =
     st\<lparr>sessions :=
       map (\<lambda>x. if identity d = identity x then x ++ d else x) pre @ (e ++ d) #
       map (\<lambda>x. if identity d = identity x then x ++ d else x) post\<rparr>"
  using assms
  by (simp add: setSession_def reducer_def setSession_callback_def isSession_identity Let_def
      del: isSession.simps)

lemma toggleSession_running:
  assumes split: "sessions (state w) = pre @ e # post"
    and first: "list_all (\<lambda>x. \<not> isSession (Some x) (Some payload)) pre"
    and found: "isSession (Some e) (Some payload)"
    and running: "status_of e = Str ''RUNNING''"
  shows "toggleSession payload w =
     (w\<lparr>state := (state w)\<lparr>sessions :=
            map (\<lambda>x. if identity (camelKeys e) = identity x
                      then x ++ (camelKeys e)(''status'' \<mapsto> Str ''STOPPING'') else x) pre
            @ (camelKeys e ++ (camelKeys e)(''status'' \<mapsto> Str ''STOPPING''))
            # map (\<lambda>x. if identity (camelKeys e) = identity x
                      then x ++ (camelKeys e)(''status'' \<mapsto> Str ''STOPPING'') else x) post\<rparr>,
        requests := requests w @
          [DELETE (ENDPOINT @ to_string (js_get e ''project_uuid'') @ ''/'' @
                   to_string (js_get e ''pipeline_uuid''))]\<rparr>,
      StopPending)"
proof -
  let ?P = "\<lambda>session. isSession (Some session) (Some payload)"
  let ?new = "(camelKeys e)(''status'' \<mapsto> Str ''STOPPING'')"
  have f: "List.find ?P (sessions (state w)) = Some e"
    unfolding split using find_first [where P = ?P, OF first found] .
  have m: "mutate_first ?P camelKeys (sessions (state w)) = pre @ camelKeys e # post"
    unfolding split using mutate_first_first [where P = ?P, OF first found] .
  have conv: "convertKeyToCamelCase (Some e) [''project_uuid'', ''pipeline_uuid''] = Some (camelKeys e)"
    by (simp add: camelKeys_def convertKeyToCamelCase_def)
  have st: "js_get (camelKeys e) ''status'' = Str ''RUNNING''"
    using running camelKeys_status [of e] by (simp add: status_of_def)
  have idn: "identity ?new = identity (camelKeys e)"
    by (rule identity_status)
  have merged: "setSession (Some ?new) ((state w)\<lparr>sessions := pre @ camelKeys e # post\<rparr>) =
     (state w)\<lparr>sessions :=
       map (\<lambda>x. if identity ?new = identity x then x ++ ?new else x) pre @ (camelKeys e ++ ?new) #
       map (\<lambda>x. if identity ?new = identity x then x ++ ?new else x) post\<rparr>"
    using idn by (rule setSession_found)
  show ?thesis
    unfolding toggleSession_def Let_def f conv m
    by (simp add: st stopSession_camelKeys merged idn del: isSession.simps)
qed

lemma camelKeys_same:
  assumes "e ''projectUuid'' = Some (js_get e ''project_uuid'')"
    and "e ''pipelineUuid'' = Some (js_get e ''pipeline_uuid'')"
  shows "camelKeys e = e"
proof -
  have "e(''projectUuid'' \<mapsto> js_get e ''project_uuid'') = e"
    using assms(1) by (rule map_upd_triv)
  moreover have "e(''pipelineUuid'' \<mapsto> js_get e ''pipeline_uuid'') = e"
    using assms(2) by (rule map_upd_triv)
  ultimately show ?thesis by (simp add: camelKeys_eq)
qed

lemma toggleSession_working:
  assumes split: "sessions (state w) = pre @ e # post"
    and first: "list_all (\<lambda>x. \<not> isSession (Some x) (Some payload)) pre"
    and found: "isSession (Some e) (Some payload)"
    and working: "status_of e = Str ''LAUNCHING'' \<or> status_of e = Str ''STOPPING''"
  shows "toggleSession payload w =
     (w\<lparr>state := (state w)\<lparr>sessions := pre @ camelKeys e # post\<rparr>\<rparr>, NoRequest)"
proof -
  let ?P = "\<lambda>session. isSession (Some session) (Some payload)"
  have f: "List.find ?P (sessions (state w)) = Some e"
    unfolding split using find_first [where P = ?P, OF first found] .
  have m: "mutate_first ?P camelKeys (sessions (state w)) = pre @ camelKeys e # post"
    unfolding split using mutate_first_first [where P = ?P, OF first found] .
  have conv: "convertKeyToCamelCase (Some e) [''project_uuid'', ''pipeline_uuid''] = Some (camelKeys e)"
    by (simp add: camelKeys_def convertKeyToCamelCase_def)
  have st: "js_get (camelKeys e) ''status'' = Str ''LAUNCHING'' \<or> js_get (camelKeys e) ''status'' = Str ''STOPPING''"
    using working camelKeys_status [of e] by (simp add: status_of_def)
  show ?thesis
    unfolding toggleSession_def Let_def f conv m
    using st by (auto simp del: isSession.simps)
qed

lemma toggleSession_working_unchanged:
  assumes "sessions (state w) = pre @ e # post"
    and "list_all (\<lambda>x. \<not> isSession (Some x) (Some payload)) pre"
    and "isSession (Some e) (Some payload)"
    and "status_of e = Str ''LAUNCHING'' \<or> status_of e = Str ''STOPPING''"
    and "e ''projectUuid'' = Some (js_get e ''project_uuid'')"
    and "e ''pipelineUuid'' = Some (js_get e ''pipeline_uuid'')"
  shows "toggleSession payload w = (w, NoRequest)"
proof -
  have "camelKeys e = e" using assms(5,6) by (rule camelKeys_same)
  with toggleSession_working [OF assms(1-4)] assms(1) show ?thesis by simp
qed

lemma deleteAllSessions_unique:
  "unique_sessions (state w) \<Longrightarrow> unique_sessions (state (deleteAllSessions schedule w))"
  by (simp add: unique_sessions_def deleteAllSessions_identities)

lemma deleteAllSessions_settle_unique:
  "unique_sessions (state w) \<Longrightarrow> unique_sessions (state (deleteAllSessions_settle outcomes w))"
  by (simp add: unique_sessions_def deleteAllSessions_settle_def reducer_def)

lemma toggle_twice_after_launch:
  assumes "p \<noteq> []" and "q \<noteq> []"
  shows "requests (toggle (camelCaseId p q) (toggle (camelCaseId p q)
       (registry [(camelCaseId p q)(''status'' \<mapsto> Str ''LAUNCHING'')
             ++ (snake_case_id p q)(''status'' \<mapsto> Str ''RUNNING'')])))
     = [DELETE (ENDPOINT @ p @ ''/'' @ q)]"
  using assms by (simp add: registry_eval js_eval)

section \<open>Properties of the session registry\<close>

text \<open>
  Claim C1, amended. In either schedule \<^verbatim>\<open>deleteAllSessions\<close> sets the killing-all flag,
  marks every session whose status is RUNNING or LAUNCHING as STOPPING, leaves the other
  statuses and every identity as they are and logs nothing. The requests it sends are stop
  requests for the sessions its callback had collected when the dispatch returned: one for
  each session it marks when the dispatch is applied at once. When the requests it sent
  have settled, one outcome for each, the registry is emptied and the flag cleared if all
  were fulfilled, and nothing is logged; if one was rejected, the registry keeps its entries,
  the flag stays set and the failure is logged.
\<close>

theorem deleteAllSessions_outcomes:
  assumes "length (requests (deleteAllSessions schedule w)) = length (requests w) + length outcomes"
  shows "map status_of (sessions (state (deleteAllSessions schedule w)))
      = map (\<lambda>s. if isStoppable (status_of s) then Str ''STOPPING'' else status_of s)
          (sessions (state w))
   \<and> map identity (sessions (state (deleteAllSessions schedule w))) = map identity (sessions (state w))
   \<and> sessionsKillAllInProgress (state (deleteAllSessions schedule w))
   \<and> console (deleteAllSessions schedule w) = console w
   \<and> requests (deleteAllSessions schedule w)
      = requests w @
        (case schedule of
           Immediate \<Rightarrow> map stopSession (filter (\<lambda>s. isStoppable (status_of s)) (sessions (state w)))
         | Batched \<Rightarrow> [])
   \<and> (schedule = Immediate \<longrightarrow>
        length outcomes = length (filter (\<lambda>s. isStoppable (status_of s)) (sessions (state w))))
   \<and> (list_all (\<lambda>ok. ok) outcomes \<longrightarrow>
        sessions (state (deleteAllSessions_settle outcomes (deleteAllSessions schedule w))) = []
        \<and> \<not> sessionsKillAllInProgress
              (state (deleteAllSessions_settle outcomes (deleteAllSessions schedule w)))
        \<and> console (deleteAllSessions_settle outcomes (deleteAllSessions schedule w)) = console w)
   \<and> (\<not> list_all (\<lambda>ok. ok) outcomes \<longrightarrow>
        sessions (state (deleteAllSessions_settle outcomes (deleteAllSessions schedule w)))
          = sessions (state (deleteAllSessions schedule w))
        \<and> sessionsKillAllInProgress
              (state (deleteAllSessions_settle outcomes (deleteAllSessions schedule w)))
        \<and> console (deleteAllSessions_settle outcomes (deleteAllSessions schedule w))
          = console w @ [''Unable to stop all sessions''])"
proof -
  let ?d = "deleteAllSessions schedule w"
  let ?stoppable = "filter (\<lambda>s. isStoppable (status_of s)) (sessions (state w))"
  have marks: "map status_of (sessions (state ?d))
      = map (\<lambda>s. if isStoppable (status_of s) then Str ''STOPPING'' else status_of s)
          (sessions (state w))"
    by (simp add: deleteAllSessions_def deleteAllSessions_callback_def reducer_def Let_def
        status_of_def js_get_upd comp_def)
  have ids: "map identity (sessions (state ?d)) = map identity (sessions (state w))"
    by (rule deleteAllSessions_identities)
  have flag: "sessionsKillAllInProgress (state ?d)"
    by (simp add: deleteAllSessions_def deleteAllSessions_callback_def reducer_def Let_def)
  have quiet: "console ?d = console w"
    by (simp add: deleteAllSessions_def Let_def)
  have reqs: "requests ?d = requests w @
        (case schedule of Immediate \<Rightarrow> map stopSession ?stoppable | Batched \<Rightarrow> [])"
    by (cases schedule)
       (simp_all add: deleteAllSessions_def deleteAllSessions_callback_def reducer_def Let_def
          status_of_def stopSession_ids comp_def)
  have count: "schedule = Immediate \<longrightarrow> length outcomes = length ?stoppable"
    using assms reqs by auto
  have ok: "sessions (state (deleteAllSessions_settle outcomes ?d)) = []
        \<and> \<not> sessionsKillAllInProgress (state (deleteAllSessions_settle outcomes ?d))
        \<and> console (deleteAllSessions_settle outcomes ?d) = console w"
    if "list_all (\<lambda>ok. ok) outcomes"
    using that quiet by (simp add: deleteAllSessions_settle_def reducer_def)
  have failed: "sessions (state (deleteAllSessions_settle outcomes ?d)) = sessions (state ?d)
        \<and> sessionsKillAllInProgress (state (deleteAllSessions_settle outcomes ?d))
        \<and> console (deleteAllSessions_settle outcomes ?d) = console w @ [''Unable to stop all sessions'']"
    if "\<not> list_all (\<lambda>ok. ok) outcomes"
    using that quiet flag by (simp add: deleteAllSessions_settle_def)
  from marks ids flag quiet reqs count ok failed show ?thesis by blast
qed

text \<open>
  An instance of C1: a running session and one without a status, the dispatch applied at
  once. One stop request is sent; when it is rejected the failure is logged, the registry
  keeps both entries and the flag stays set, and when it is fulfilled the registry is
  emptied and the flag cleared.
\<close>

theorem deleteAllSessions_outcomes_witness:
  "requests (deleteAllSessions Immediate
       (registry [(camelCaseId ''p1'' ''q1'')(''status'' \<mapsto> Str ''RUNNING''), camelCaseId ''p2'' ''q2'']))
     = [DELETE ''/catch/api-proxy/api/sessions/p1/q1'']
   \<and> length (sessions (state (deleteAllSessions_settle [False] (deleteAllSessions Immediate
       (registry [(camelCaseId ''p1'' ''q1'')(''status'' \<mapsto> Str ''RUNNING''), camelCaseId ''p2'' ''q2''])))))
     = 2
   \<and> console (deleteAllSessions_settle [False] (deleteAllSessions Immediate
       (registry [(camelCaseId ''p1'' ''q1'')(''status'' \<mapsto> Str ''RUNNING''), camelCaseId ''p2'' ''q2''])))
     = [''Unable to stop all sessions'']
   \<and> sessions (state (deleteAllSessions_settle [True] (deleteAllSessions Immediate
       (registry [(camelCaseId ''p1'' ''q1'')(''status'' \<mapsto> Str ''RUNNING''), camelCaseId ''p2'' ''q2'']))))
     = []
   \<and> \<not> sessionsKillAllInProgress (state (deleteAllSessions_settle [True] (deleteAllSessions Immediate
       (registry [(camelCaseId ''p1'' ''q1'')(''status'' \<mapsto> Str ''RUNNING''), camelCaseId ''p2'' ''q2'']))))"
proof -
  let ?w = "registry [(camelCaseId ''p1'' ''q1'')(''status'' \<mapsto> Str ''RUNNING''), camelCaseId ''p2'' ''q2'']"
  have sent: "requests (deleteAllSessions Immediate ?w) = [DELETE ''/catch/api-proxy/api/sessions/p1/q1'']"
    by (simp add: registry_eval js_eval)
  have before: "requests ?w = []" "console ?w = []" "length (sessions (state ?w)) = 2"
    by (simp_all add: registry_def initialWorld_def)
  have one: "length (requests (deleteAllSessions Immediate ?w)) = length (requests ?w) + length [False]"
    and one': "length (requests (deleteAllSessions Immediate ?w)) = length (requests ?w) + length [True]"
    by (simp_all add: sent before)
  note rejected = deleteAllSessions_outcomes [OF one]
  note fulfilled = deleteAllSessions_outcomes [OF one']
  from rejected have kept: "sessions (state (deleteAllSessions_settle [False] (deleteAllSessions Immediate ?w)))
      = sessions (state (deleteAllSessions Immediate ?w))"
    and logged: "console (deleteAllSessions_settle [False] (deleteAllSessions Immediate ?w))
      = console ?w @ [''Unable to stop all sessions'']"
    and ids: "map identity (sessions (state (deleteAllSessions Immediate ?w))) = map identity (sessions (state ?w))"
    by simp_all
  from ids have "length (sessions (state (deleteAllSessions Immediate ?w))) = length (sessions (state ?w))"
    using length_map [of identity "sessions (state (deleteAllSessions Immediate ?w))"]
      length_map [of identity "sessions (state ?w)"] by simp
  with kept before have two: "length (sessions (state (deleteAllSessions_settle [False] (deleteAllSessions Immediate ?w)))) = 2"
    by simp
  from fulfilled have cleared: "sessions (state (deleteAllSessions_settle [True] (deleteAllSessions Immediate ?w))) = []"
    and reset: "\<not> sessionsKillAllInProgress (state (deleteAllSessions_settle [True] (deleteAllSessions Immediate ?w)))"
    by simp_all
  from sent two logged before cleared reset show ?thesis by simp
qed

text \<open>
  Counterexample to C1 as stated, on a registry with one running session. When the dispatch
  is applied at once and the stop request is rejected, the registry still holds the session
  and the killing-all flag is still set. When the dispatch is queued, no stop request is
  sent for the session.
\<close>

theorem deleteAllSessions_failure_counterexample:
  "sessions (state (deleteAllSessions_settle [False]
      (deleteAllSessions Immediate (registry [(camelCaseId ''p1'' ''q1'')(''status'' \<mapsto> Str ''RUNNING'')]))))
     \<noteq> []
   \<and> sessionsKillAllInProgress (state (deleteAllSessions_settle [False]
      (deleteAllSessions Immediate (registry [(camelCaseId ''p1'' ''q1'')(''status'' \<mapsto> Str ''RUNNING'')]))))
   \<and> requests (deleteAllSessions Immediate (registry [(camelCaseId ''p1'' ''q1'')(''status'' \<mapsto> Str ''RUNNING'')]))
     = [DELETE ''/catch/api-proxy/api/sessions/p1/q1'']
   \<and> requests (deleteAllSessions Batched (registry [(camelCaseId ''p1'' ''q1'')(''status'' \<mapsto> Str ''RUNNING'')]))
     = []
   \<and> map status_of (sessions (state
        (deleteAllSessions Batched (registry [(camelCaseId ''p1'' ''q1'')(''status'' \<mapsto> Str ''RUNNING'')]))))
     = [Str ''STOPPING'']
   \<and> sessions (state (deleteAllSessions_settle []
      (deleteAllSessions Batched (registry [(camelCaseId ''p1'' ''q1'')(''status'' \<mapsto> Str ''RUNNING'')]))))
     = []"
  by (simp add: registry_eval js_eval)

text \<open>
  Claim C6: starting from an empty registry, \<^verbatim>\<open>toggleSession\<close> on a camel-case
  identity with a non-empty project and pipeline inserts one entry with status LAUNCHING and
  sends one launch request; when the server answers with the snake-case details and status
  RUNNING, the details are merged into that entry, which then has status RUNNING and the
  same identity, and the registry still has that single entry.
\<close>

theorem toggle_launch_then_merge:
  assumes "sessions (state w) = []" and "p \<noteq> []" and "q \<noteq> []"
  shows "snd (toggleSession (camelCaseId p q) w) = LaunchPending
    \<and> sessions (state (toggle (camelCaseId p q) w))
        = [(camelCaseId p q)(''status'' \<mapsto> Str ''LAUNCHING'')]
    \<and> requests (toggle (camelCaseId p q) w) = requests w @ [POST ENDPOINT (Str q) (Str p)]
    \<and> sessions (state (toggleSession_settle LaunchPending
          (Fulfilled (Some ((snake_case_id p q)(''status'' \<mapsto> Str ''RUNNING''))))
          (toggle (camelCaseId p q) w)))
        = [(camelCaseId p q)(''status'' \<mapsto> Str ''LAUNCHING'')
             ++ (snake_case_id p q)(''status'' \<mapsto> Str ''RUNNING'')]
    \<and> status_of ((camelCaseId p q)(''status'' \<mapsto> Str ''LAUNCHING'')
             ++ (snake_case_id p q)(''status'' \<mapsto> Str ''RUNNING'')) = Str ''RUNNING''
    \<and> identity ((camelCaseId p q)(''status'' \<mapsto> Str ''LAUNCHING'')
             ++ (snake_case_id p q)(''status'' \<mapsto> Str ''RUNNING'')) = (Str p, Str q)
    \<and> requests (toggleSession_settle LaunchPending
          (Fulfilled (Some ((snake_case_id p q)(''status'' \<mapsto> Str ''RUNNING''))))
          (toggle (camelCaseId p q) w)) = requests w @ [POST ENDPOINT (Str q) (Str p)]"
  using assms
  by (simp add: toggle_def toggleSession_def launch_def convertKeyToCamelCase_def setSession_def
      setSession_callback_def reducer_def Let_def js_eval)

text \<open>The scenario of C6 for project \<open>p1\<close> and pipeline \<open>q1\<close>.\<close>

theorem toggle_launch_then_merge_witness:
  "length (sessions (state (toggleSession_settle LaunchPending
          (Fulfilled (Some ((snake_case_id ''p1'' ''q1'')(''status'' \<mapsto> Str ''RUNNING''))))
          (toggle (camelCaseId ''p1'' ''q1'') initialWorld)))) = 1
   \<and> map status_of (sessions (state (toggleSession_settle LaunchPending
          (Fulfilled (Some ((snake_case_id ''p1'' ''q1'')(''status'' \<mapsto> Str ''RUNNING''))))
          (toggle (camelCaseId ''p1'' ''q1'') initialWorld)))) = [Str ''RUNNING'']
   \<and> map status_of (sessions (state (toggle (camelCaseId ''p1'' ''q1'') initialWorld)))
        = [Str ''LAUNCHING'']
   \<and> requests (toggle (camelCaseId ''p1'' ''q1'') initialWorld)
        = [POST ''/catch/api-proxy/api/sessions/'' (Str ''q1'') (Str ''p1'')]"
proof -
  have empty: "sessions (state initialWorld) = []" "requests initialWorld = []"
    by (simp_all add: initialWorld_def initialState_def)
  have ne: "''p1'' \<noteq> []" "''q1'' \<noteq> []" by simp_all
  note inst = toggle_launch_then_merge [OF empty(1) ne]
  from inst empty(2) show ?thesis by (simp add: status_of_def js_get_upd ENDPOINT_def)
qed

text \<open>
  Claim C7, amended: for a non-empty project and a non-empty pipeline identifier,
  \<^verbatim>\<open>getSession\<close> returns the same entry for the camel-case and for the snake-case
  query, in every registry; in particular an entry stored under one convention is found by
  a query in the other.
\<close>

theorem getSession_either_convention:
  assumes "p \<noteq> []" and "q \<noteq> []"
  shows "getSession st (camelCaseId p q) = getSession st (snake_case_id p q)
    \<and> getSession (st\<lparr>sessions := [snake_case_id p q]\<rparr>) (camelCaseId p q) = Some (snake_case_id p q)
    \<and> getSession (st\<lparr>sessions := [camelCaseId p q]\<rparr>) (snake_case_id p q) = Some (camelCaseId p q)"
  using assms
  by (simp add: getSession_def isSession_identity identity_camelCaseId identity_snake_case_id
      del: isSession.simps)

text \<open>An instance of C7 on a registry that holds a snake-case entry.\<close>

theorem getSession_either_convention_witness:
  "getSession (initialState\<lparr>sessions := [snake_case_id ''p1'' ''q1'']\<rparr>) (camelCaseId ''p1'' ''q1'')
     = getSession (initialState\<lparr>sessions := [snake_case_id ''p1'' ''q1'']\<rparr>) (snake_case_id ''p1'' ''q1'')
   \<and> getSession (initialState\<lparr>sessions := [snake_case_id ''p1'' ''q1'']\<rparr>) (camelCaseId ''p1'' ''q1'')
     \<noteq> None"
proof -
  have ne: "''p1'' \<noteq> []" "''q1'' \<noteq> []" by simp_all
  have same: "getSession (initialState\<lparr>sessions := [snake_case_id ''p1'' ''q1'']\<rparr>) (camelCaseId ''p1'' ''q1'')
     = getSession (initialState\<lparr>sessions := [snake_case_id ''p1'' ''q1'']\<rparr>) (snake_case_id ''p1'' ''q1'')"
    using getSession_either_convention [OF ne, THEN conjunct1] .
  have found: "getSession (initialState\<lparr>sessions := [snake_case_id ''p1'' ''q1'']\<rparr>) (camelCaseId ''p1'' ''q1'')
     \<noteq> None"
    by (simp add: registry_eval js_eval)
  from same found show ?thesis by (rule conjI)
qed

text \<open>
  Counterexample to C7 as stated: with the empty string as project identifier, the
  snake-case query finds the snake-case entry and the camel-case query finds nothing,
  because \<^verbatim>\<open>"" || undefined\<close> is \<^verbatim>\<open>undefined\<close>.
\<close>

theorem getSession_empty_id_counterexample:
  "getSession (initialState\<lparr>sessions := [snake_case_id '''' ''q1'']\<rparr>) (camelCaseId '''' ''q1'')
     \<noteq> getSession (initialState\<lparr>sessions := [snake_case_id '''' ''q1'']\<rparr>) (snake_case_id '''' ''q1'')"
  by (simp add: registry_eval js_eval)

text \<open>
  What \<^verbatim>\<open>toggleSession\<close> does when the first entry that matches the payload has
  status RUNNING: it leaves the registry with as many entries as before and that entry with
  status STOPPING, and sends exactly one request, a DELETE whose address is the endpoint
  followed by what the entry holds under \<^verbatim>\<open>project_uuid\<close> and \<^verbatim>\<open>pipeline_uuid\<close>. It
  raises no alert. If the request is rejected, the alert ``Failed to stop session.'' is
  raised and the state, and with it the status STOPPING, stays as it is; no other request
  is sent.
\<close>

lemma toggle_running_entry:
  assumes "sessions (state w) = pre @ e # post"
    and "list_all (\<lambda>x. \<not> isSession (Some x) (Some payload)) pre"
    and "isSession (Some e) (Some payload)"
    and "status_of e = Str ''RUNNING''"
  shows "snd (toggleSession payload w) = StopPending
    \<and> requests (toggle payload w) = requests w @
          [DELETE (ENDPOINT @ to_string (js_get e ''project_uuid'') @ ''/'' @
                   to_string (js_get e ''pipeline_uuid''))]
    \<and> length (sessions (state (toggle payload w))) = length (sessions (state w))
    \<and> status_of (sessions (state (toggle payload w)) ! length pre) = Str ''STOPPING''
    \<and> alerts (toggle payload w) = alerts w
    \<and> alerts (toggleSession_settle StopPending (Rejected m) (toggle payload w))
        = alerts w @ [(''Error'', ''Failed to stop session.'')]
    \<and> state (toggleSession_settle StopPending (Rejected m) (toggle payload w))
        = state (toggle payload w)
    \<and> requests (toggleSession_settle StopPending (Rejected m) (toggle payload w))
        = requests (toggle payload w)"
proof -
  note run = toggleSession_running [OF assms]
  have stopping: "status_of (camelKeys e ++ (camelKeys e)(''status'' \<mapsto> Str ''STOPPING'')) = Str ''STOPPING''"
    by (simp add: status_of_def js_get_upd)
  show ?thesis
    unfolding toggle_def run
    by (simp add: assms(1) nth_append status_of_def js_get_upd)
qed

text \<open>
  For an entry that carries \<open>p1\<close> and \<open>q1\<close> in its snake-case fields, as the details
  the server sends do, the request goes to the session toggled.
\<close>

lemma toggle_running_entry_served:
  "requests (toggle (camelCaseId ''p1'' ''q1'')
       (registry [(snake_case_id ''p1'' ''q1'')(''status'' \<mapsto> Str ''RUNNING'')]))
     = [DELETE ''/catch/api-proxy/api/sessions/p1/q1'']
   \<and> map status_of (sessions (state (toggle (camelCaseId ''p1'' ''q1'')
       (registry [(snake_case_id ''p1'' ''q1'')(''status'' \<mapsto> Str ''RUNNING'')]))))
     = [Str ''STOPPING'']
   \<and> alerts (toggleSession_settle StopPending (Rejected (Str ''timeout''))
       (toggle (camelCaseId ''p1'' ''q1'')
         (registry [(snake_case_id ''p1'' ''q1'')(''status'' \<mapsto> Str ''RUNNING'')])))
     = [(''Error'', ''Failed to stop session.'')]
   \<and> map status_of (sessions (state (toggleSession_settle StopPending (Rejected (Str ''timeout''))
       (toggle (camelCaseId ''p1'' ''q1'')
         (registry [(snake_case_id ''p1'' ''q1'')(''status'' \<mapsto> Str ''RUNNING'')])))))
     = [Str ''STOPPING'']"
proof -
  let ?e = "(snake_case_id ''p1'' ''q1'')(''status'' \<mapsto> Str ''RUNNING'')"
  let ?w = "registry [?e]"
  let ?payload = "camelCaseId ''p1'' ''q1''"
  have a: "sessions (state ?w) = [] @ ?e # []" by (simp add: registry_def initialWorld_def)
  have b: "list_all (\<lambda>x. \<not> isSession (Some x) (Some ?payload)) []" by simp
  have c: "isSession (Some ?e) (Some ?payload)" by (simp add: js_eval)
  have d: "status_of ?e = Str ''RUNNING''" by (simp add: js_eval)
  note inst = toggle_running_entry [OF a b c d, of "Str ''timeout''"]
  have url: "ENDPOINT @ to_string (js_get ?e ''project_uuid'') @ ''/'' @ to_string (js_get ?e ''pipeline_uuid'')
     = ''/catch/api-proxy/api/sessions/p1/q1''"
    by (simp add: ENDPOINT_def js_eval)
  have empty: "requests ?w = []" "alerts ?w = []"
    by (simp_all add: registry_def initialWorld_def)
  have one: "length (sessions (state (toggle ?payload ?w))) = 1"
    using inst a by simp
  have sts: "map status_of (sessions (state (toggle ?payload ?w))) = [Str ''STOPPING'']"
  proof -
    from one obtain x where x: "sessions (state (toggle ?payload ?w)) = [x]"
      by (cases "sessions (state (toggle ?payload ?w))") auto
    with inst have "status_of x = Str ''STOPPING''" by simp
    with x show ?thesis by simp
  qed
  from inst url empty sts show ?thesis by simp
qed

text \<open>
  Claim C5 at a running entry stored with camel-case fields only, the fields the callers of
  the registry use. \<^verbatim>\<open>convertKeyToCamelCase\<close> overwrites them with the snake-case fields
  the entry does not have, before the address is built from them: the entry becomes
  STOPPING and one DELETE request is sent, but its address names no session, where the
  claim has it go to the session toggled, and the entry has lost its identity.
\<close>

theorem toggle_running_camel_entry:
  "requests (toggle (camelCaseId ''p1'' ''q1'')
      (registry [(camelCaseId ''p1'' ''q1'')(''status'' \<mapsto> Str ''RUNNING'')]))
     = [DELETE ''/catch/api-proxy/api/sessions/undefined/undefined'']
   \<and> map status_of (sessions (state (toggle (camelCaseId ''p1'' ''q1'')
      (registry [(camelCaseId ''p1'' ''q1'')(''status'' \<mapsto> Str ''RUNNING'')]))))
     = [Str ''STOPPING'']
   \<and> map identity (sessions (state (toggle (camelCaseId ''p1'' ''q1'')
      (registry [(camelCaseId ''p1'' ''q1'')(''status'' \<mapsto> Str ''RUNNING'')]))))
     = [(Undefined, Undefined)]"
  by (simp add: registry_eval js_eval)

text \<open>
  Claim C2 at an entry stored with camel-case fields only, as \<^verbatim>\<open>toggleSession\<close> itself
  inserts it. From the initial state, the first call inserts the entry and sends the launch
  request. The second call finds the entry LAUNCHING and sends nothing, but it is not
  without effect: the entry loses its identity and \<^verbatim>\<open>getSession\<close> no longer finds it.
  The third call therefore sends a second launch request. In the same way two calls on a
  running entry with camel-case fields only send a stop and a launch request.
\<close>

theorem toggle_twice_camel_entry:
  "map identity (sessions (state (toggle (camelCaseId ''p1'' ''q1'') initialWorld)))
     = [(Str ''p1'', Str ''q1'')]
   \<and> snd (toggleSession (camelCaseId ''p1'' ''q1'') (toggle (camelCaseId ''p1'' ''q1'') initialWorld))
     = NoRequest
   \<and> map identity (sessions (state (toggle (camelCaseId ''p1'' ''q1'')
        (toggle (camelCaseId ''p1'' ''q1'') initialWorld))))
     = [(Undefined, Undefined)]
   \<and> getSession (state (toggle (camelCaseId ''p1'' ''q1'')
        (toggle (camelCaseId ''p1'' ''q1'') initialWorld))) (camelCaseId ''p1'' ''q1'') = None
   \<and> requests (toggle (camelCaseId ''p1'' ''q1'') (toggle (camelCaseId ''p1'' ''q1'')
        (toggle (camelCaseId ''p1'' ''q1'') initialWorld)))
     = [POST ENDPOINT (Str ''q1'') (Str ''p1''), POST ENDPOINT (Str ''q1'') (Str ''p1'')]
   \<and> requests (toggle (camelCaseId ''p1'' ''q1'') (toggle (camelCaseId ''p1'' ''q1'')
        (registry [(camelCaseId ''p1'' ''q1'')(''status'' \<mapsto> Str ''RUNNING'')])))
     = [DELETE ''/catch/api-proxy/api/sessions/undefined/undefined'',
        POST ENDPOINT (Str ''q1'') (Str ''p1'')]"
  by (simp add: registry_eval js_eval)

text \<open>
  Claim C8 after four calls of \<^verbatim>\<open>toggleSession\<close> on one identity from the initial
  state: the registry holds two entries that \<^verbatim>\<open>isSession\<close> takes for the same session.
\<close>

theorem toggle_breaks_unique_sessions:
  "unique_sessions (state initialWorld)
   \<and> map identity (sessions (state (toggle (camelCaseId ''p1'' ''q1'') (toggle (camelCaseId ''p1'' ''q1'')
        (toggle (camelCaseId ''p1'' ''q1'') (toggle (camelCaseId ''p1'' ''q1'') initialWorld))))))
     = [(Undefined, Undefined), (Undefined, Undefined)]
   \<and> \<not> unique_sessions (state (toggle (camelCaseId ''p1'' ''q1'') (toggle (camelCaseId ''p1'' ''q1'')
        (toggle (camelCaseId ''p1'' ''q1'') (toggle (camelCaseId ''p1'' ''q1'') initialWorld)))))"
  by (simp add: registry_eval js_eval)

section \<open>Properties of the notebook bridge\<close>

text \<open>
  Claim C3: a call of \<^verbatim>\<open>setNotebookKernel\<close>, or the handler of its session lookup,
  that issues a prompt issues it in the state in which the pending entry of the pair has
  just been set, and only when the entry was not set before. The confirmed callback sends
  the request, and when the request settles, fulfilled or rejected, the entry is cleared.
  While the entry of a pair is set, a call for the pair either raises before it has changed
  anything, returns the bridge as it was, or only starts a session lookup, and the handler
  of the lookup at most logs an error: no prompt is issued and no change is requested.
\<close>

theorem kernel_change_pending_guard:
  "(\<forall>j' l. setNotebookKernel nb k j = Inr (j', l) \<and> prompts j' \<noteq> prompts j \<longrightarrow>
       j' = setConfirm ''Warning'' warningMessage (ChangeKernel nb k) (setKernelChangePending nb k True j)
       \<and> isKernelChangePending nb k j')
   \<and> (prompts (setNotebookKernel_found nb k found j) \<noteq> prompts j \<longrightarrow>
       (\<exists>sid. setNotebookKernel_found nb k found j =
            setConfirm ''Warning'' warningMessage (ShutdownSession nb k sid)
              (setKernelChangePending nb k True j))
       \<and> isKernelChangePending nb k (setNotebookKernel_found nb k found j))
   \<and> kernel_requests (onConfirm_call action j) = kernel_requests j @ [action]
   \<and> \<not> isKernelChangePending (notebook action) (kernel action) (fst (onConfirm_settle action result j))
   \<and> (isKernelChangePending nb k j \<longrightarrow>
        (setNotebookKernel nb k j = Inl TypeError
          \<or> setNotebookKernel nb k j = Inr (j, False)
          \<or> setNotebookKernel nb k j = Inr (j\<lparr>path_lookups := path_lookups j @ [nb]\<rparr>, True))
        \<and> (setNotebookKernel_found nb k found j = j
          \<or> setNotebookKernel_found nb k found j = j\<lparr>bridge_console := Suc (bridge_console j)\<rparr>))"
proof -
  have a: "\<forall>j' l. setNotebookKernel nb k j = Inr (j', l) \<and> prompts j' \<noteq> prompts j \<longrightarrow>
       j' = setConfirm ''Warning'' warningMessage (ChangeKernel nb k) (setKernelChangePending nb k True j)
       \<and> isKernelChangePending nb k j'"
    using setNotebookKernel_prompting [of nb k j] by blast
  have b: "prompts (setNotebookKernel_found nb k found j) \<noteq> prompts j \<longrightarrow>
       (\<exists>sid. setNotebookKernel_found nb k found j =
            setConfirm ''Warning'' warningMessage (ShutdownSession nb k sid)
              (setKernelChangePending nb k True j))
       \<and> isKernelChangePending nb k (setNotebookKernel_found nb k found j)"
    using setNotebookKernel_found_prompting [of nb k found j] by blast
  have c: "kernel_requests (onConfirm_call action j) = kernel_requests j @ [action]"
    by (simp add: onConfirm_call_def)
  have d: "isKernelChangePending nb k j \<longrightarrow>
        (setNotebookKernel nb k j = Inl TypeError
          \<or> setNotebookKernel nb k j = Inr (j, False)
          \<or> setNotebookKernel nb k j = Inr (j\<lparr>path_lookups := path_lookups j @ [nb]\<rparr>, True))
        \<and> (setNotebookKernel_found nb k found j = j
          \<or> setNotebookKernel_found nb k found j = j\<lparr>bridge_console := Suc (bridge_console j)\<rparr>)"
    using setNotebookKernel_pending [of nb k j] setNotebookKernel_found_pending [of nb k j found]
    by blast
  note e = onConfirm_settle_clears [of action result j]
  show ?thesis
    by (intro conjI) (rule a, rule b, rule c, rule e, rule d)
qed

text \<open>
  The scenario of C3: the notebook \<open>nb.ipynb\<close> is open on \<open>kernel-b\<close> and
  \<^verbatim>\<open>setNotebookKernel("nb.ipynb", "kernel-a")\<close> is called twice. The first call sets the
  entry and issues the prompt, the second returns the bridge unchanged, with one prompt.
\<close>

theorem kernel_change_pending_guard_witness:
  "setNotebookKernel ''nb.ipynb'' ''kernel-a''
       (loadedJupyter [notebookPanel ''nb.ipynb'' False ''kernel-b''])
     = Inr (setConfirm ''Warning'' warningMessage (ChangeKernel ''nb.ipynb'' ''kernel-a'')
              (setKernelChangePending ''nb.ipynb'' ''kernel-a'' True
                 (loadedJupyter [notebookPanel ''nb.ipynb'' False ''kernel-b''])), False)
   \<and> isKernelChangePending ''nb.ipynb'' ''kernel-a''
        (setConfirm ''Warning'' warningMessage (ChangeKernel ''nb.ipynb'' ''kernel-a'')
           (setKernelChangePending ''nb.ipynb'' ''kernel-a'' True
              (loadedJupyter [notebookPanel ''nb.ipynb'' False ''kernel-b''])))
   \<and> setNotebookKernel ''nb.ipynb'' ''kernel-a''
        (setConfirm ''Warning'' warningMessage (ChangeKernel ''nb.ipynb'' ''kernel-a'')
           (setKernelChangePending ''nb.ipynb'' ''kernel-a'' True
              (loadedJupyter [notebookPanel ''nb.ipynb'' False ''kernel-b''])))
     = Inr (setConfirm ''Warning'' warningMessage (ChangeKernel ''nb.ipynb'' ''kernel-a'')
              (setKernelChangePending ''nb.ipynb'' ''kernel-a'' True
                 (loadedJupyter [notebookPanel ''nb.ipynb'' False ''kernel-b''])), False)
   \<and> length (prompts
        (setConfirm ''Warning'' warningMessage (ChangeKernel ''nb.ipynb'' ''kernel-a'')
           (setKernelChangePending ''nb.ipynb'' ''kernel-a'' True
              (loadedJupyter [notebookPanel ''nb.ipynb'' False ''kernel-b''])))) = 1"
proof -
  let ?j0 = "loadedJupyter [notebookPanel ''nb.ipynb'' False ''kernel-b'']"
  let ?j1 = "setConfirm ''Warning'' warningMessage (ChangeKernel ''nb.ipynb'' ''kernel-a'')
               (setKernelChangePending ''nb.ipynb'' ''kernel-a'' True ?j0)"
  have first: "setNotebookKernel ''nb.ipynb'' ''kernel-a'' ?j0 = Inr (?j1, False)"
    by (simp add: setNotebookKernel_def loadedJupyter_def newJupyter_def findWidget_def
        notebookPanel_def isKernelChangePending_def)
  have one: "length (prompts ?j1) = 1"
    by (simp add: setConfirm_def setKernelChangePending_def loadedJupyter_def newJupyter_def)
  have new: "prompts ?j1 \<noteq> prompts ?j0"
    by (simp add: setConfirm_def setKernelChangePending_def loadedJupyter_def newJupyter_def)
  note guard0 = kernel_change_pending_guard
    [where nb = "''nb.ipynb''" and k = "''kernel-a''" and j = ?j0]
  from guard0 first new have pending: "isKernelChangePending ''nb.ipynb'' ''kernel-a'' ?j1"
    by blast
  note guard1 = kernel_change_pending_guard
    [where nb = "''nb.ipynb''" and k = "''kernel-a''" and j = ?j1]
  from guard1 pending
  have three: "setNotebookKernel ''nb.ipynb'' ''kernel-a'' ?j1 = Inl TypeError
      \<or> setNotebookKernel ''nb.ipynb'' ''kernel-a'' ?j1 = Inr (?j1, False)
      \<or> setNotebookKernel ''nb.ipynb'' ''kernel-a'' ?j1
          = Inr (?j1\<lparr>path_lookups := path_lookups ?j1 @ [''nb.ipynb'']\<rparr>, True)"
    by blast
  have opened: "\<exists>r. setNotebookKernel ''nb.ipynb'' ''kernel-a'' ?j1 = Inr (r, False)"
    by (simp add: setNotebookKernel_def setConfirm_def setKernelChangePending_def
        loadedJupyter_def newJupyter_def findWidget_def notebookPanel_def)
  from three opened have second: "setNotebookKernel ''nb.ipynb'' ''kernel-a'' ?j1 = Inr (?j1, False)"
    by auto
  from first pending second one show ?thesis by blast
qed

text \<open>
  Claim C4, amended: \<^verbatim>\<open>reloadFilesFromDisk\<close> only sets the reload-on-show flag, whether
  the holder is hidden or not, and reverts nothing. The next \<^verbatim>\<open>show\<close> clears the flag
  and reverts, in order, the widgets of the main area that are notebook panels without
  unsaved changes and whose context is found; it skips the others. The second part is
  stated for a frame that has the application, its shell and the document manager, and
  where every notebook panel has a model, so that no access raises.
\<close>

theorem reload_is_deferred_to_show:
  "reloadFilesFromDisk j = j\<lparr>reloadOnShow := True\<rparr>
   \<and> reverted (reloadFilesFromDisk j) = reverted j
   \<and> hidden (reloadFilesFromDisk j) = hidden j
   \<and> (orchest_app j = Some lab \<and> shell lab = Some sh \<and> orchest_docmanager j = Some dm
        \<and> list_all panel_has_model (widgets_main sh) \<longrightarrow>
       (\<exists>j'. showJupyter (reloadFilesFromDisk j) = Inr j'
          \<and> reverted j' = reverted j @ map wid (filter (revertible dm) (widgets_main sh))
          \<and> \<not> reloadOnShow j'))"
proof -
  have deferred: "reloadFilesFromDisk j = j\<lparr>reloadOnShow := True\<rparr>"
    by (simp add: reloadFilesFromDisk_def)
  have shown: "\<exists>j'. showJupyter (reloadFilesFromDisk j) = Inr j'
          \<and> reverted j' = reverted j @ map wid (filter (revertible dm) (widgets_main sh))
          \<and> \<not> reloadOnShow j'"
    if "orchest_app j = Some lab" "shell lab = Some sh" "orchest_docmanager j = Some dm"
      "list_all panel_has_model (widgets_main sh)"
  proof -
    have "\<exists>j'. showJupyter (j\<lparr>reloadOnShow := True\<rparr>) = Inr j'
          \<and> reverted j' = reverted (j\<lparr>reloadOnShow := True\<rparr>) @ map wid (filter (revertible dm) (widgets_main sh))
          \<and> \<not> reloadOnShow j'"
      using that by (intro showJupyter_reverts [of _ lab sh dm]) simp_all
    with deferred show ?thesis by simp
  qed
  from deferred shown show ?thesis by simp
qed

text \<open>
  An instance of C4 with a clean and a dirty notebook: the call reverts nothing, the next
  \<^verbatim>\<open>show\<close> reverts the clean one only.
\<close>

theorem reload_is_deferred_to_show_witness:
  "reverted (reloadFilesFromDisk (loadedJupyter
       [notebookPanel ''a.ipynb'' False ''k'', notebookPanel ''b.ipynb'' True ''k''])) = []
   \<and> (\<exists>j'. showJupyter (reloadFilesFromDisk (loadedJupyter
       [notebookPanel ''a.ipynb'' False ''k'', notebookPanel ''b.ipynb'' True ''k''])) = Inr j'
        \<and> reverted j' = [''a.ipynb''] \<and> \<not> reloadOnShow j')"
proof -
  let ?ws = "[notebookPanel ''a.ipynb'' False ''k'', notebookPanel ''b.ipynb'' True ''k'']"
  let ?sh = "\<lparr>widgets_default = ?ws, widgets_main = ?ws,
               shell_node = Some \<lparr>clientWidth = 1200, mainContentPanel = Some 1200\<rparr>\<rparr>"
  let ?dm = "\<lparr>open_widgets = ?ws, contexts = map wid ?ws\<rparr>"
  have a: "orchest_app (loadedJupyter ?ws) = Some \<lparr>shell = Some ?sh\<rparr>"
    by (simp add: loadedJupyter_def newJupyter_def)
  have b: "shell \<lparr>shell = Some ?sh\<rparr> = Some ?sh" by simp
  have c: "orchest_docmanager (loadedJupyter ?ws) = Some ?dm"
    by (simp add: loadedJupyter_def newJupyter_def)
  have d: "list_all panel_has_model (widgets_main ?sh)"
    by (simp add: panel_has_model_def notebookPanel_def)
  have e: "map wid (filter (revertible ?dm) (widgets_main ?sh)) = [''a.ipynb'']"
    by (simp add: revertible_def notebookPanel_def)
  have f: "reverted (loadedJupyter ?ws) = []"
    by (simp add: loadedJupyter_def newJupyter_def)
  note inst = reload_is_deferred_to_show
    [of "loadedJupyter ?ws" "\<lparr>shell = Some ?sh\<rparr>" ?sh ?dm, unfolded e f append_Nil]
  from inst a b c d show ?thesis by blast
qed

text \<open>
  Counterexample to C4 as stated: the bridge is visible and holds a clean notebook panel
  whose context is found, and \<^verbatim>\<open>reloadFilesFromDisk\<close> reverts nothing; it sets the
  flag.
\<close>

theorem reload_while_visible_counterexample:
  "\<not> hidden (loadedJupyter [notebookPanel ''a.ipynb'' False ''k''])
   \<and> revertible \<lparr>open_widgets = [notebookPanel ''a.ipynb'' False ''k''], contexts = [''a.ipynb'']\<rparr>
        (notebookPanel ''a.ipynb'' False ''k'')
   \<and> reverted (reloadFilesFromDisk (loadedJupyter [notebookPanel ''a.ipynb'' False ''k''])) = []
   \<and> reloadOnShow (reloadFilesFromDisk (loadedJupyter [notebookPanel ''a.ipynb'' False ''k'']))"
  by (simp add: bridge_eval)

text \<open>
  Claim C9, amended: \<^verbatim>\<open>updateJupyterInstance\<close> with an address other than the recorded
  one unloads first, so the frame is sent to \<open>about:blank\<close> and marked as not loaded, and
  then records the new address; it does not navigate to the new address. With the recorded
  address it changes nothing. A later \<^verbatim>\<open>show\<close> that returns has navigated to the new
  address followed by \<open>/lab\<close> if the new address does not occur in the text
  \<open>about:blank\<close>, and has not navigated at all if it does; and \<^verbatim>\<open>show\<close> returns when
  no reload is pending.
\<close>

theorem updateJupyterInstance_unloads_first:
  assumes "baseAddress j \<noteq> a"
  shows "updateJupyterInstance a j = (unload j)\<lparr>baseAddress := a\<rparr>
    \<and> navigations (updateJupyterInstance a j) = navigations j @ [''about:blank'']
    \<and> location_href (updateJupyterInstance a j) = ''about:blank''
    \<and> \<not> iframeHasLoaded (updateJupyterInstance a j)
    \<and> baseAddress (updateJupyterInstance a j) = a
    \<and> updateJupyterInstance a (updateJupyterInstance a j) = updateJupyterInstance a j
    \<and> updateJupyterInstance (baseAddress j) j = j
    \<and> (\<forall>j'. showJupyter (updateJupyterInstance a j) = Inr j' \<longrightarrow>
          navigations j' = navigations j @ [''about:blank''] @
            (if indexOf ''about:blank'' a = - 1 then [a @ ''/lab''] else []))
    \<and> (\<not> reloadOnShow j \<longrightarrow> (\<exists>j'. showJupyter (updateJupyterInstance a j) = Inr j'))"
proof -
  have upd: "updateJupyterInstance a j = (unload j)\<lparr>baseAddress := a\<rparr>"
    using assms by (simp add: updateJupyterInstance_def)
  have navs: "navigations (updateJupyterInstance a j) = navigations j @ [''about:blank'']"
    and href: "location_href (updateJupyterInstance a j) = ''about:blank''"
    and loaded: "\<not> iframeHasLoaded (updateJupyterInstance a j)"
    and base: "baseAddress (updateJupyterInstance a j) = a"
    and flag: "reloadOnShow (updateJupyterInstance a j) = reloadOnShow j"
    by (simp_all add: upd unload_def priv_setJupyterAddress_def)
  have again: "updateJupyterInstance a (updateJupyterInstance a j) = updateJupyterInstance a j"
    using base by (simp add: updateJupyterInstance_def [of a "updateJupyterInstance a j"])
  have same: "updateJupyterInstance (baseAddress j) j = j"
    by (simp add: updateJupyterInstance_def)
  have shown: "navigations j' = navigations j @ [''about:blank''] @
            (if indexOf ''about:blank'' a = - 1 then [a @ ''/lab''] else [])"
    if "showJupyter (updateJupyterInstance a j) = Inr j'" for j'
    using showJupyter_navigations [OF that] by (simp add: navs href base)
  have returns: "\<exists>j'. showJupyter (updateJupyterInstance a j) = Inr j'" if "\<not> reloadOnShow j"
    using that showJupyter_returns [of "updateJupyterInstance a j"] by (simp add: flag)
  from upd navs href loaded base again same shown returns show ?thesis by blast
qed

text \<open>
  The scenario of C9: two addresses in a row on a new bridge, then \<^verbatim>\<open>show\<close>.
\<close>

theorem updateJupyterInstance_unloads_first_witness:
  "navigations (updateJupyterInstance ''http://host/b''
       (updateJupyterInstance ''http://host/a'' (newJupyter True)))
     = [''about:blank'', ''about:blank'']
   \<and> baseAddress (updateJupyterInstance ''http://host/b''
       (updateJupyterInstance ''http://host/a'' (newJupyter True))) = ''http://host/b''
   \<and> (\<exists>j'. showJupyter (updateJupyterInstance ''http://host/b''
       (updateJupyterInstance ''http://host/a'' (newJupyter True))) = Inr j'
      \<and> navigations j' = [''about:blank'', ''about:blank'', ''http://host/b/lab''])"
proof -
  let ?j = "updateJupyterInstance ''http://host/a'' (newJupyter True)"
  have ne: "baseAddress ?j \<noteq> ''http://host/b''"
    by (simp add: updateJupyterInstance_def newJupyter_def)
  have navs: "navigations ?j = [''about:blank'']"
    by (simp add: updateJupyterInstance_def unload_def priv_setJupyterAddress_def newJupyter_def)
  have flag: "\<not> reloadOnShow ?j"
    by (simp add: updateJupyterInstance_def unload_def priv_setJupyterAddress_def newJupyter_def)
  have idx: "indexOf ''about:blank'' ''http://host/b'' = - 1"
    by (simp add: indexOf_def)
  note inst = updateJupyterInstance_unloads_first [OF ne]
  from inst flag obtain j' where j': "showJupyter (updateJupyterInstance ''http://host/b'' ?j) = Inr j'"
    by blast
  with inst have "navigations j' = navigations ?j @ [''about:blank''] @
       (if indexOf ''about:blank'' ''http://host/b'' = - 1 then [''http://host/b'' @ ''/lab''] else [])"
    by blast
  then have shown: "navigations j' = [''about:blank'', ''about:blank'', ''http://host/b/lab'']"
    by (simp add: navs idx)
  from inst have "navigations (updateJupyterInstance ''http://host/b'' ?j) = navigations ?j @ [''about:blank'']"
    and b: "baseAddress (updateJupyterInstance ''http://host/b'' ?j) = ''http://host/b''"
    by blast+
  then have n: "navigations (updateJupyterInstance ''http://host/b'' ?j) = [''about:blank'', ''about:blank'']"
    by (simp add: navs)
  from n b j' shown show ?thesis by blast
qed

text \<open>
  Counterexample to C9 as stated: the new address \<open>blank\<close> differs from the recorded
  one and occurs in the text \<open>about:blank\<close>. The update unloads the frame, and the
  \<^verbatim>\<open>show\<close> that follows returns without a navigation to the new address. The same
  holds for the empty address.
\<close>

theorem show_after_update_counterexample:
  "baseAddress (updateJupyterInstance ''http://host/a'' (newJupyter True)) \<noteq> ''blank''
   \<and> navigations (updateJupyterInstance ''blank''
        (updateJupyterInstance ''http://host/a'' (newJupyter True)))
     = [''about:blank'', ''about:blank'']
   \<and> map_sum id navigations (showJupyter (updateJupyterInstance ''blank''
        (updateJupyterInstance ''http://host/a'' (newJupyter True))))
     = Inr [''about:blank'', ''about:blank'']
   \<and> map_sum id baseAddress (showJupyter (updateJupyterInstance ''blank''
        (updateJupyterInstance ''http://host/a'' (newJupyter True))))
     = Inr ''blank''
   \<and> map_sum id navigations (showJupyter (updateJupyterInstance []
        (updateJupyterInstance ''http://host/a'' (newJupyter True))))
     = Inr [''about:blank'', ''about:blank'']"
  by (simp add: bridge_eval)

text \<open>
  Claim C10: \<^verbatim>\<open>isJupyterLoaded\<close> and \<^verbatim>\<open>isJupyterShellRenderedCorrectly\<close> answer true
  exactly when the guarded block returns true; when an access in the block raises they
  answer false. Both blocks raise when the frame has no application object.
\<close>

theorem readiness_never_raises:
  "isJupyterLoaded j = (isJupyterLoaded_try j = Inr True)
   \<and> isJupyterShellRenderedCorrectly j = (isJupyterShellRenderedCorrectly_try j = Inr True)
   \<and> (isJupyterLoaded_try j = Inl e \<longrightarrow> \<not> isJupyterLoaded j)
   \<and> (isJupyterShellRenderedCorrectly_try j = Inl e \<longrightarrow> \<not> isJupyterShellRenderedCorrectly j)
   \<and> (orchest_app j = None \<longrightarrow>
        isJupyterLoaded_try j = Inl TypeError \<and> isJupyterShellRenderedCorrectly_try j = Inl TypeError)"
  by (auto simp add: isJupyterLoaded_def isJupyterShellRenderedCorrectly_def
      isJupyterLoaded_try_def isJupyterShellRenderedCorrectly_try_def split: sum.splits)

text \<open>
  Instances of C10: a new bridge, whose frame has no application object, and a frame whose
  shell lists a widget without a node.
\<close>

theorem readiness_never_raises_witness:
  "isJupyterLoaded_try (newJupyter True) = Inl TypeError
   \<and> \<not> isJupyterLoaded (newJupyter True)
   \<and> isJupyterShellRenderedCorrectly_try (newJupyter True) = Inl TypeError
   \<and> \<not> isJupyterShellRenderedCorrectly (newJupyter True)
   \<and> isJupyterLoaded_try
        (loadedJupyter [\<lparr>wid = ''w'', node = None, model_dirty = None, widget_context = None\<rparr>])
       = Inl TypeError
   \<and> \<not> isJupyterLoaded
        (loadedJupyter [\<lparr>wid = ''w'', node = None, model_dirty = None, widget_context = None\<rparr>])"
proof -
  let ?bad = "loadedJupyter [\<lparr>wid = ''w'', node = None, model_dirty = None, widget_context = None\<rparr>]"
  have none: "orchest_app (newJupyter True) = None" by (simp add: newJupyter_def)
  have raised: "isJupyterLoaded_try ?bad = Inl TypeError"
    by (simp add: isJupyterLoaded_try_def loadedJupyter_def newJupyter_def)
  note absent = readiness_never_raises [of "newJupyter True" TypeError]
  note malformed = readiness_never_raises [of ?bad TypeError]
  from absent none have "isJupyterLoaded_try (newJupyter True) = Inl TypeError"
    and "\<not> isJupyterLoaded (newJupyter True)"
    and "isJupyterShellRenderedCorrectly_try (newJupyter True) = Inl TypeError"
    and "\<not> isJupyterShellRenderedCorrectly (newJupyter True)"
    by blast+
  moreover from malformed raised have "\<not> isJupyterLoaded ?bad" by blast
  ultimately show ?thesis using raised by blast
qed

end
